theory Spec2Isabelle
  imports Main
begin

section \<open>Python values and strings\<close>

text \<open>
  Strings are lists of characters. The texts handled by the compiler are identifiers and
  statement texts; \<open>str.upper\<close> is modelled on the ASCII letters (other characters are
  left unchanged), \<open>str.replace(" ", "_")\<close> acts character by character.
\<close>

definition is_ascii_lower :: "char \<Rightarrow> bool" where
  "is_ascii_lower c = (let n = (of_char c :: nat) in 97 \<le> n \<and> n \<le> 122)"

definition char_upper :: "char \<Rightarrow> char" where
  "char_upper c =
     (if is_ascii_lower c
      then (case c of Char b0 b1 b2 b3 b4 b5 b6 b7 \<Rightarrow> Char b0 b1 b2 b3 b4 False b6 b7)
      else c)"

definition py_upper :: "string \<Rightarrow> string" where
  "py_upper s = map char_upper s"

text \<open>\<^verbatim>\<open>upper_clean(value) = value.replace(" ", "_").upper()\<close> (core/sql_render.py).\<close>

definition upper_clean :: "string \<Rightarrow> string" where
  "upper_clean v = py_upper (map (\<lambda>c. if c = CHR '' '' then CHR ''_'' else c) v)"

text \<open>\<open>sep.join(xs)\<close> on a list of strings.\<close>

fun py_join :: "string \<Rightarrow> string list \<Rightarrow> string" where
  "py_join sep [] = []"
| "py_join sep [x] = x"
| "py_join sep (x # y # ys) = x @ sep @ py_join sep (y # ys)"

definition quoted :: "string \<Rightarrow> string" where
  "quoted s = CHR 0x27 # s @ [CHR 0x27]"

text \<open>
  A dictionary entry is either absent or present with a value that may be \<open>None\<close>.
  \<open>d.get(k)\<close> gives \<open>None\<close> for an absent key, \<open>d.get(k, dflt)\<close> gives the default
  for an absent key only, \<open>d[k]\<close> raises \<open>KeyError\<close> for an absent key.
\<close>

datatype 'a field = Absent | Present "'a option"

datatype error =
    ValueError string
  | TypeError string
  | KeyError string
  | AttributeError string
  | DbError string

fun str_of_error :: "error \<Rightarrow> string" where
  "str_of_error (ValueError m) = m"
| "str_of_error (TypeError m) = m"
| "str_of_error (KeyError k) = quoted k"
| "str_of_error (AttributeError m) = m"
| "str_of_error (DbError m) = m"

definition dget :: "'a field \<Rightarrow> 'a option" where
  "dget f = (case f of Absent \<Rightarrow> None | Present v \<Rightarrow> v)"

definition dget_default :: "'a field \<Rightarrow> 'a option \<Rightarrow> 'a option" where
  "dget_default f dflt = (case f of Absent \<Rightarrow> dflt | Present v \<Rightarrow> v)"

definition subscript :: "string \<Rightarrow> 'a field \<Rightarrow> error + 'a option" where
  "subscript k f = (case f of Absent \<Rightarrow> Inl (KeyError k) | Present v \<Rightarrow> Inr v)"

text \<open>Truth value of an optional string: \<open>None\<close> and the empty string are false.\<close>

definition truthy :: "string option \<Rightarrow> bool" where
  "truthy v = (case v of None \<Rightarrow> False | Some s \<Rightarrow> s \<noteq> [])"

definition py_or :: "string option \<Rightarrow> string option \<Rightarrow> string option" where
  "py_or a b = (if truthy a then a else b)"

text \<open>An optional string inside an f-string: \<open>None\<close> prints as the word None.\<close>

definition fmt :: "string option \<Rightarrow> string" where
  "fmt v = (case v of None \<Rightarrow> ''None'' | Some s \<Rightarrow> s)"

section \<open>Blueprint records and the canonical table model\<close>

text \<open>
  The raw blueprint record as the configuration loader builds it. Only the keys that the
  normaliser, the validator and the deployment routes read are fields here.
\<close>

record binding =
  b_name :: "string field"
  b_binding :: "string field"

record node =
  n_node :: "string field"
  n_bindings :: "binding list"
  n_load :: "bool field"

record column =
  c_name :: "string field"
  c_binding :: "string field"
  c_alias :: "string field"
  c_data_type :: "string field"
  c_description :: "string field"

record blueprint =
  bp_name :: "string field"
  bp_binding_object :: "string field"
  bp_binding_db :: "string field"
  bp_binding_schema :: "string field"
  bp_where_clause :: "string field"
  bp_delete_condition :: "string field"
  bp_ingest_time_binding :: "string field"
  bp_ingest_time :: "string field"
  bp_columns :: "column list"
  bp_primary_node :: node
  bp_secondary_nodes :: "node list"

text \<open>
  The normalised table: the blueprint's keys are kept (\<open>{**bp}\<close>) and \<open>name\<close>,
  \<open>database\<close>, \<open>schema\<close>, \<open>where_clause\<close>, \<open>delete_condition\<close>, \<open>ingest_time\<close>,
  \<open>columns\<close>, \<open>primary_node\<close> and \<open>secondary_nodes\<close> are overwritten. A node's \<open>name\<close>
  becomes the resolved binding values: one string for a single key column, a list otherwise.
\<close>

datatype key_name = Scalar string | Composite "string list"

record mapped_column =
  mc_name :: "string option"
  mc_binding :: "string option"
  mc_target :: "string option"
  mc_type :: "string option"
  mc_description :: "string option"

record mapped_node = node +
  mn_name :: key_name

record table =
  t_name :: "string option"
  t_binding_object :: "string field"
  t_database :: "string option"
  t_schema :: "string option"
  t_where_clause :: "string option"
  t_delete_condition :: "string option"
  t_ingest_time :: "string option"
  t_columns :: "mapped_column list"
  t_primary_node :: mapped_node
  t_secondary_nodes :: "mapped_node list"

definition map_column :: "column \<Rightarrow> mapped_column" where
  "map_column c =
     \<lparr> mc_name = dget (c_name c),
       mc_binding = dget (c_binding c),
       mc_target = py_or (dget (c_alias c)) (dget (c_name c)),
       mc_type = dget (c_data_type c),
       mc_description = dget (c_description c) \<rparr>"

definition binding_values :: "binding list \<Rightarrow> string list" where
  "binding_values bs = map (\<lambda>b. the (dget (b_binding b))) (filter (\<lambda>b. truthy (dget (b_binding b))) bs)"

definition resolve_name :: "binding list \<Rightarrow> key_name" where
  "resolve_name bs =
     (let vs = binding_values bs in
      if length vs = 1 then Scalar (hd vs) else Composite vs)"

definition map_node :: "node \<Rightarrow> mapped_node" where
  "map_node n =
     \<lparr> n_node = n_node n, n_bindings = n_bindings n, n_load = n_load n,
       mn_name = resolve_name (n_bindings n) \<rparr>"

text \<open>\<open>SQLRenderer._normalize_blueprint\<close>.\<close>

definition normalize_blueprint :: "blueprint \<Rightarrow> table" where
  "normalize_blueprint bp =
     \<lparr> t_name = py_or (dget (bp_binding_object bp)) (dget (bp_name bp)),
       t_binding_object = bp_binding_object bp,
       t_database = dget (bp_binding_db bp),
       t_schema = dget (bp_binding_schema bp),
       t_where_clause = dget (bp_where_clause bp),
       t_delete_condition = dget (bp_delete_condition bp),
       t_ingest_time =
         py_or (dget (bp_ingest_time_binding bp)) (dget_default (bp_ingest_time bp) (Some ''INGEST_TIME'')),
       t_columns = map map_column (bp_columns bp),
       t_primary_node = map_node (bp_primary_node bp),
       t_secondary_nodes = map map_node (bp_secondary_nodes bp) \<rparr>"

section \<open>Binding validation\<close>

text \<open>
  The entries collected by \<open>SQLRenderer._validate_bindings\<close>. A column entry is the value
  under the column's \<open>name\<close> key, which the normaliser always sets and which is \<open>None\<close> when
  the raw column had no name; node entries are f-strings and so always strings.
\<close>

definition missing_columns :: "mapped_column list \<Rightarrow> string option list" where
  "missing_columns cols = map mc_name (filter (\<lambda>c. \<not> truthy (mc_binding c)) cols)"

definition missing_primary :: "binding list \<Rightarrow> string option list" where
  "missing_primary bs =
     map (\<lambda>b. Some (''primary_node.'' @ fmt (dget_default (b_name b) (Some ''unknown''))))
       (filter (\<lambda>b. \<not> truthy (dget (b_binding b))) bs)"

definition missing_secondary_node :: "mapped_node \<Rightarrow> string option list" where
  "missing_secondary_node sn =
     map (\<lambda>b. Some (''secondary_node.'' @ fmt (dget_default (n_node sn) (Some ''unknown'')) @ ''.''
                 @ fmt (dget_default (b_name b) (Some ''unknown''))))
       (filter (\<lambda>b. \<not> truthy (dget (b_binding b))) (n_bindings sn))"

definition missing_bindings :: "table \<Rightarrow> string option list" where
  "missing_bindings t =
     missing_columns (t_columns t)
     @ missing_primary (n_bindings (t_primary_node t))
     @ concat (map missing_secondary_node (t_secondary_nodes t))"

text \<open>
  \<open>', '.join(missing_bindings)\<close> raises \<open>TypeError\<close> when an entry is \<open>None\<close>.
\<close>

definition join_missing :: "string option list \<Rightarrow> error + string" where
  "join_missing ms =
     (if list_all (\<lambda>m. m \<noteq> None) ms then Inr (py_join '', '' (map the ms))
      else Inl (TypeError ''sequence item: expected str instance, NoneType found''))"

definition validate_bindings :: "string \<Rightarrow> table \<Rightarrow> error + unit" where
  "validate_bindings source t =
     (if \<not> truthy (t_database t) then
        Inl (ValueError (''Blueprint '' @ quoted source @ '' missing binding_db''))
      else if \<not> truthy (t_schema t) then
        Inl (ValueError (''Blueprint '' @ quoted source @ '' missing binding_schema''))
      else if missing_bindings t = [] then Inr ()
      else (case join_missing (missing_bindings t) of
              Inl e \<Rightarrow> Inl e
            | Inr s \<Rightarrow> Inl (ValueError (''Blueprint '' @ quoted source
                               @ '' has missing field bindings: '' @ s))))"

section \<open>The statement compiler\<close>

text \<open>
  A renderer holds the blueprint id it was built for, the normalised table, the source
  (group) name and the target and stage locations of the configuration metadata. The
  template files and the template engine are not part of the sources: \<open>templates\<close> is the
  engine, a function from the template name, the renderer and the extra context values to
  the rendered text, or \<open>None\<close> when the engine is unavailable or rendering raises.
\<close>

record renderer =
  r_source :: string
  r_replace_objects :: bool
  r_target_database_override :: "string option"
  r_target_database :: string
  r_target_schema :: string
  r_stage_database :: string
  r_stage_schema :: string
  r_source_name :: string
  r_table :: table

type_synonym templates = "string \<Rightarrow> renderer \<Rightarrow> (string \<times> string) list \<Rightarrow> string option"

text \<open>\<open>get_base_context()["target"]["database"]\<close>: the override, upper-cased, when given.\<close>

definition context_target_database :: "renderer \<Rightarrow> string" where
  "context_target_database r =
     (if truthy (r_target_database_override r) then py_upper (the (r_target_database_override r))
      else r_target_database r)"

text \<open>\<open>SQLRenderer.render\<close>: any failure of the engine gives a comment line, never an exception.\<close>

definition render :: "templates \<Rightarrow> renderer \<Rightarrow> string \<Rightarrow> (string \<times> string) list \<Rightarrow> string" where
  "render tm r template_name extra =
     (case tm template_name r extra of
        None \<Rightarrow> ''-- Template rendering failed: '' @ template_name
      | Some s \<Rightarrow> s)"

text \<open>
  \<open>upper_clean(n["node"])\<close>: \<open>KeyError\<close> when the key is absent, \<open>AttributeError\<close> when the
  value is \<open>None\<close>.
\<close>

definition clean_node :: "string field \<Rightarrow> error + string" where
  "clean_node f =
     (case subscript ''node'' f of
        Inl e \<Rightarrow> Inl e
      | Inr None \<Rightarrow> Inl (AttributeError ''NoneType object has no attribute replace'')
      | Inr (Some s) \<Rightarrow> Inr (upper_clean s))"

fun nodes_loop :: "templates \<Rightarrow> renderer \<Rightarrow> mapped_node list \<Rightarrow> string list \<Rightarrow> error + string list" where
  "nodes_loop tm r [] sqls = Inr sqls"
| "nodes_loop tm r (n # ns) sqls =
     (case clean_node (n_node n) of
        Inl e \<Rightarrow> Inl e
      | Inr nd \<Rightarrow> nodes_loop tm r ns (sqls @ [render tm r ''create_node.sql'' [(''node'', nd)]]))"

text \<open>\<open>SQLRenderer.create_nodes\<close>.\<close>

definition create_nodes :: "templates \<Rightarrow> renderer \<Rightarrow> error + string list" where
  "create_nodes tm r =
     (case clean_node (n_node (t_primary_node (r_table r))) of
        Inl e \<Rightarrow> Inl e
      | Inr p \<Rightarrow>
          nodes_loop tm r (t_secondary_nodes (r_table r))
            [render tm r ''create_node.sql'' [(''node'', p)]])"

fun edges_loop :: "templates \<Rightarrow> renderer \<Rightarrow> string \<Rightarrow> mapped_node list \<Rightarrow> string list \<Rightarrow> error + string list" where
  "edges_loop tm r p [] sqls = Inr sqls"
| "edges_loop tm r p (n # ns) sqls =
     (case clean_node (n_node n) of
        Inl e \<Rightarrow> Inl e
      | Inr s \<Rightarrow>
          edges_loop tm r p ns
            (sqls @ [render tm r ''create_edge.sql'' [(''primary'', p), (''secondary'', s)]]))"

text \<open>\<open>SQLRenderer.create_edges\<close>.\<close>

definition create_edges :: "templates \<Rightarrow> renderer \<Rightarrow> error + string list" where
  "create_edges tm r =
     (case clean_node (n_node (t_primary_node (r_table r))) of
        Inl e \<Rightarrow> Inl e
      | Inr p \<Rightarrow> edges_loop tm r p (t_secondary_nodes (r_table r)) [])"

definition create_view :: "templates \<Rightarrow> renderer \<Rightarrow> string" where
  "create_view tm r = render tm r ''create_stage_view.sql'' []"

definition create_stream :: "templates \<Rightarrow> renderer \<Rightarrow> string" where
  "create_stream tm r = render tm r ''create_stream.sql'' []"

definition create_task :: "templates \<Rightarrow> renderer \<Rightarrow> string" where
  "create_task tm r = render tm r ''create_task.sql'' []"

definition create_attribute :: "templates \<Rightarrow> renderer \<Rightarrow> string" where
  "create_attribute tm r = render tm r ''create_attribute.sql'' []"

definition mti :: "templates \<Rightarrow> renderer \<Rightarrow> string" where
  "mti tm r = render tm r ''unload_stream_mti.sql'' []"

text \<open>\<open>SQLRenderer.full_refresh_mti\<close>: the whole full-refresh statement as one text.\<close>

definition full_refresh_mti :: "templates \<Rightarrow> renderer \<Rightarrow> string" where
  "full_refresh_mti tm r = render tm r ''full_refresh_mti.sql'' [(''db'', context_target_database r)]"

text \<open>
  The configuration store, read by the renderer's constructor through its own connection:
  \<open>cs_lookup\<close> gives for a blueprint id either the text of the exception the loader raised,
  or nothing (no blueprint of that id or name), or the blueprint with its group id.
\<close>

record config_store =
  cs_lookup :: "string \<Rightarrow> string + (blueprint \<times> string option) option"
  cs_target_database :: string
  cs_target_schema :: string
  cs_stage_database :: string
  cs_stage_schema :: string

definition not_found_msg :: "string \<Rightarrow> string" where
  "not_found_msg source =
     ''Blueprint '' @ quoted source @ '' not found in configuration tables (searched by id and name)''"

text \<open>\<open>SQLRenderer.__init__\<close>: load, normalise, validate.\<close>

definition SQLRenderer :: "config_store \<Rightarrow> string \<Rightarrow> bool \<Rightarrow> string option \<Rightarrow> error + renderer" where
  "SQLRenderer cs source replace_objects target_database =
     (case cs_lookup cs source of
        Inl m \<Rightarrow>
          Inl (ValueError (''Blueprint '' @ quoted source @ '' not found in configuration tables: '' @ m))
      | Inr None \<Rightarrow>
          Inl (ValueError (''Blueprint '' @ quoted source @ '' not found in configuration tables: ''
                 @ not_found_msg source))
      | Inr (Some (bp, group_id)) \<Rightarrow>
          if \<not> truthy group_id then Inl (ValueError (not_found_msg source))
          else
            let t = normalize_blueprint bp in
            (case validate_bindings source t of
               Inl e \<Rightarrow> Inl e
             | Inr u \<Rightarrow>
                 Inr \<lparr> r_source = source,
                       r_replace_objects = replace_objects,
                       r_target_database_override = target_database,
                       r_target_database = cs_target_database cs,
                       r_target_schema = cs_target_schema cs,
                       r_stage_database = cs_stage_database cs,
                       r_stage_schema = cs_stage_schema cs,
                       r_source_name = the group_id,
                       r_table = t \<rparr>))"

text \<open>
  The violations in the specification's words: the column projections without a physical
  binding, the primary-node keys without a binding and the secondary-node keys without a
  binding. Used to state that the validator's list is complete.
\<close>

definition unbound_columns :: "table \<Rightarrow> mapped_column list" where
  "unbound_columns t = filter (\<lambda>c. \<not> truthy (mc_binding c)) (t_columns t)"

definition unbound_keys :: "binding list \<Rightarrow> binding list" where
  "unbound_keys bs = filter (\<lambda>b. \<not> truthy (dget (b_binding b))) bs"

definition violation_count :: "table \<Rightarrow> nat" where
  "violation_count t =
     length (unbound_columns t)
     + length (unbound_keys (n_bindings (t_primary_node t)))
     + sum_list (map (\<lambda>sn. length (unbound_keys (n_bindings sn))) (t_secondary_nodes t))"

definition primary_path :: "binding \<Rightarrow> string" where
  "primary_path b = ''primary_node.'' @ fmt (dget_default (b_name b) (Some ''unknown''))"

definition secondary_path :: "mapped_node \<Rightarrow> binding \<Rightarrow> string" where
  "secondary_path sn b =
     ''secondary_node.'' @ fmt (dget_default (n_node sn) (Some ''unknown'')) @ ''.''
       @ fmt (dget_default (b_name b) (Some ''unknown''))"

definition unbound_blueprint :: blueprint where
  "unbound_blueprint =
     \<lparr> bp_name = Present (Some ''Test Asset Register''),
       bp_binding_object = Present (Some ''test_asset_register''),
       bp_binding_db = Present (Some ''RAW''),
       bp_binding_schema = Present (Some ''SAP''),
       bp_where_clause = Absent,
       bp_delete_condition = Absent,
       bp_ingest_time_binding = Present None,
       bp_ingest_time = Absent,
       bp_columns =
         [\<lparr> c_name = Present (Some ''cost''), c_binding = Present None,
            c_alias = Present None, c_data_type = Present (Some ''NUMBER''),
            c_description = Present None \<rparr>,
          \<lparr> c_name = Present (Some ''site''), c_binding = Present (Some ''SITE_CD''),
            c_alias = Present None, c_data_type = Present (Some ''TEXT''),
            c_description = Present None \<rparr>],
       bp_primary_node =
         \<lparr> n_node = Present (Some ''work order''),
           n_bindings = [\<lparr> b_name = Present (Some ''id''), b_binding = Present (Some []) \<rparr>],
           n_load = Absent \<rparr>,
       bp_secondary_nodes =
         [\<lparr> n_node = Present (Some ''asset''),
            n_bindings = [\<lparr> b_name = Present (Some ''asset_id''), b_binding = Absent \<rparr>],
            n_load = Present (Some False) \<rparr>] \<rparr>"


section \<open>Derived object names\<close>

text \<open>
  The names computed by \<open>calculate_deployment_summary\<close> for one blueprint of a model
  (api/routes/utilities.py): nothing is listed for a blueprint without a binding object;
  node, edge and attribute names need an entity name on the node.
\<close>

record derived_names =
  dn_views :: "string list"
  dn_streams :: "string list"
  dn_tasks :: "string list"
  dn_nodes :: "string list"
  dn_edges :: "string list"
  dn_attributes :: "string list"

definition has_node :: "node \<Rightarrow> bool" where
  "has_node n = truthy (dget (n_node n))"

definition node_upper :: "node \<Rightarrow> string" where
  "node_upper n = py_upper (the (dget_default (n_node n) (Some [])))"

definition node_names :: "blueprint \<Rightarrow> string list" where
  "node_names bp =
     (if has_node (bp_primary_node bp) then [''NODE_'' @ node_upper (bp_primary_node bp)] else [])
     @ map (\<lambda>n. ''NODE_'' @ node_upper n) (filter has_node (bp_secondary_nodes bp))"

definition edge_names :: "blueprint \<Rightarrow> string list" where
  "edge_names bp =
     (if has_node (bp_primary_node bp)
      then map (\<lambda>n. ''EDGE_'' @ node_upper (bp_primary_node bp) @ ''_'' @ node_upper n)
             (filter has_node (bp_secondary_nodes bp))
      else [])"

definition blueprint_names :: "string \<Rightarrow> blueprint \<Rightarrow> derived_names" where
  "blueprint_names source_name bp =
     (let binding_object = dget_default (bp_binding_object bp) (Some []) in
      if \<not> truthy binding_object then
        \<lparr> dn_views = [], dn_streams = [], dn_tasks = [], dn_nodes = [], dn_edges = [],
          dn_attributes = [] \<rparr>
      else
        \<lparr> dn_views = [''VIEW_'' @ py_upper (the binding_object)],
          dn_streams = [''STREAM_'' @ py_upper (the binding_object)],
          dn_tasks = [''TASK_'' @ py_upper (the binding_object)],
          dn_nodes = node_names bp,
          dn_edges = edge_names bp,
          dn_attributes =
            (if has_node (bp_primary_node bp)
             then [''ATTR_'' @ node_upper (bp_primary_node bp) @ ''_''
                     @ py_upper (the binding_object) @ ''_'' @ py_upper source_name]
             else []) \<rparr>)"

section \<open>Segmenting the full-refresh statement\<close>

text \<open>
  The single-blueprint deployment route receives the full-refresh statement as one text and
  cuts it up itself (api/routes/blueprints.py): \<open>split('\n')\<close>, \<open>strip()\<close>,
  \<open>startswith\<close>, \<open>endswith\<close> and the substring test are modelled on character lists.
\<close>

fun split_on :: "char \<Rightarrow> string \<Rightarrow> string list" where
  "split_on d [] = [[]]"
| "split_on d (c # cs) =
     (if c = d then [] # split_on d cs
      else (case split_on d cs of [] \<Rightarrow> [[c]] | w # ws \<Rightarrow> (c # w) # ws))"

definition is_space :: "char \<Rightarrow> bool" where
  "is_space c =
     (let n = (of_char c :: nat) in (9 \<le> n \<and> n \<le> 13) \<or> (28 \<le> n \<and> n \<le> 32))"

definition py_strip :: "string \<Rightarrow> string" where
  "py_strip s = rev (dropWhile is_space (rev (dropWhile is_space s)))"

definition starts_with :: "string \<Rightarrow> string \<Rightarrow> bool" where
  "starts_with p s = (take (length p) s = p)"

definition ends_with :: "string \<Rightarrow> string \<Rightarrow> bool" where
  "ends_with p s = (length p \<le> length s \<and> drop (length s - length p) s = p)"

fun contains :: "string \<Rightarrow> string \<Rightarrow> bool" where
  "contains p [] = (p = [])"
| "contains p (c # cs) = (starts_with p (c # cs) \<or> contains p cs)"

definition is_truncate :: "string \<Rightarrow> bool" where
  "is_truncate ls = (starts_with ''TRUNCATE TABLE'' ls \<and> ends_with '';'' ls)"

definition is_from_end :: "string \<Rightarrow> bool" where
  "is_from_end ls = (starts_with ''FROM'' ls \<and> ends_with '';'' ls)"

text \<open>
  The scanning loop: \<open>i\<close> is the index of the current line, \<open>truncs\<close> the truncate
  statements found so far, \<open>start\<close> the index of the last line seen that contains
  \<open>INSERT ALL\<close>. The loop breaks at the first line after it that begins with \<open>FROM\<close> and
  ends with a semicolon.
\<close>

fun scan_lines :: "string list \<Rightarrow> nat \<Rightarrow> string list \<Rightarrow> nat option
                     \<Rightarrow> string list \<times> nat option \<times> nat option" where
  "scan_lines [] i truncs start = (truncs, start, None)"
| "scan_lines (line # rest) i truncs start =
     (if is_truncate (py_strip line) then scan_lines rest (Suc i) (truncs @ [py_strip line]) start
      else if contains ''INSERT ALL'' (py_strip line) then scan_lines rest (Suc i) truncs (Some i)
      else if start \<noteq> None \<and> is_from_end (py_strip line) then (truncs, start, Some i)
      else scan_lines rest (Suc i) truncs start)"

text \<open>
  The result: the truncate statements, and the insert block (\<open>lines[start:end+1]\<close> joined
  by newlines) when both ends were found.
\<close>

definition split_full_refresh :: "string \<Rightarrow> string list \<times> string option" where
  "split_full_refresh sql =
     (let lines = split_on (CHR 0x0A) sql in
      case scan_lines lines 0 [] None of
        (truncs, Some a, Some b) \<Rightarrow>
          (truncs, Some (py_join [CHR 0x0A] (take (Suc b - a) (drop a lines))))
      | (truncs, _, _) \<Rightarrow> (truncs, None))"


section \<open>Target system, events and deployment steps\<close>

text \<open>
  The target system is an oracle: given the statements attempted so far on the shared
  connection (each with its outcome) and the next statement, \<open>client.run\<close> either raises
  or returns rows, of which only the number is kept. A deployment threads the trace of
  attempted statements through its steps.
\<close>

type_synonym trace = "(string \<times> bool) list"

type_synonym database = "trace \<Rightarrow> string \<Rightarrow> error + nat"

text \<open>
  A progress event. Time stamps and message texts are not modelled; an absent
  \<open>object_name\<close> and one that is \<open>None\<close> are both \<open>None\<close>. \<open>ev_steps_completed\<close> is the
  \<open>steps_completed\<close> dictionary of a model's final event, in insertion order, and empty on
  every other event.
\<close>

record event =
  ev_level :: string
  ev_step :: string
  ev_status :: string
  ev_model_id :: "string option"
  ev_blueprint_id :: "string option"
  ev_object_name :: "string option"
  ev_steps_completed :: "(string \<times> bool option) list"

definition ev :: "string \<Rightarrow> string \<Rightarrow> string \<Rightarrow> string \<Rightarrow> event" where
  "ev level step object_name status =
     \<lparr> ev_level = level, ev_step = step, ev_status = status, ev_model_id = None,
       ev_blueprint_id = None, ev_object_name = Some object_name, ev_steps_completed = [] \<rparr>"

text \<open>
  The state of a running generator: the trace, the events yielded so far, and the two
  lists the single-blueprint route keeps (\<open>deployed_objects\<close>, \<open>steps_completed\<close>).
\<close>

record io_state =
  io_trace :: trace
  io_events :: "event list"
  io_deployed :: "string list"
  io_steps :: "string list"

text \<open>
  The statements of a generator body, one constructor per kind of source line:
  \<open>Emit\<close> is a \<open>yield\<close>; \<open>Exec\<close> is \<open>client.run(sql)\<close>; \<open>ExecCheck\<close> is a
  \<open>client.run\<close> whose empty result raises the given error; \<open>ExecQuiet\<close> is a
  \<open>client.run\<close> inside its own \<open>try\<close> whose handler only logs; \<open>ExecThenEmit\<close> is
  such a guarded \<open>client.run\<close> followed by a \<open>yield\<close> when it succeeded; \<open>Track\<close> and
  \<open>Done\<close> append to \<open>deployed_objects\<close> and \<open>steps_completed\<close>; \<open>Raise\<close> is an
  exception raised by the Python code itself; \<open>Try body handler wrap\<close> is
  \<open>try: body except Exception as e: handler\<close>, after which the handler either
  re-raises \<open>ValueError(prefix + str(e))\<close> (\<open>wrap = Some prefix\<close>) or falls through.
\<close>

datatype op =
    Emit event
  | Exec string
  | ExecCheck string error
  | ExecQuiet string
  | ExecThenEmit string event
  | Track string
  | Done string
  | Raise error
  | Try "op list" "op list" "string option"

definition attempt :: "database \<Rightarrow> string \<Rightarrow> 'a io_state_scheme \<Rightarrow> (error + nat) \<times> 'a io_state_scheme" where
  "attempt db sql st =
     (case db (io_trace st) sql of
        Inl e \<Rightarrow> (Inl e, st\<lparr>io_trace := io_trace st @ [(sql, False)]\<rparr>)
      | Inr n \<Rightarrow> (Inr n, st\<lparr>io_trace := io_trace st @ [(sql, True)]\<rparr>))"

definition yield :: "event \<Rightarrow> 'a io_state_scheme \<Rightarrow> 'a io_state_scheme" where
  "yield e st = st\<lparr>io_events := io_events st @ [e]\<rparr>"

fun run_op :: "database \<Rightarrow> op \<Rightarrow> io_state \<Rightarrow> error option \<times> io_state"
and run_ops :: "database \<Rightarrow> op list \<Rightarrow> io_state \<Rightarrow> error option \<times> io_state" where
  "run_op db (Emit e) st = (None, yield e st)"
| "run_op db (Exec sql) st =
     (case attempt db sql st of (Inl e, st') \<Rightarrow> (Some e, st') | (Inr n, st') \<Rightarrow> (None, st'))"
| "run_op db (ExecCheck sql err) st =
     (case attempt db sql st of
        (Inl e, st') \<Rightarrow> (Some e, st')
      | (Inr n, st') \<Rightarrow> (if n = 0 then (Some err, st') else (None, st')))"
| "run_op db (ExecQuiet sql) st = (None, snd (attempt db sql st))"
| "run_op db (ExecThenEmit sql e) st =
     (case attempt db sql st of (Inl x, st') \<Rightarrow> (None, st') | (Inr n, st') \<Rightarrow> (None, yield e st'))"
| "run_op db (Track obj) st = (None, st\<lparr>io_deployed := io_deployed st @ [obj]\<rparr>)"
| "run_op db (Done step) st = (None, st\<lparr>io_steps := io_steps st @ [step]\<rparr>)"
| "run_op db (Raise e) st = (Some e, st)"
| "run_op db (Try body handler wrap) st =
     (case run_ops db body st of
        (None, st') \<Rightarrow> (None, st')
      | (Some e, st') \<Rightarrow>
          (case run_ops db handler st' of
             (Some e', st'') \<Rightarrow> (Some e', st'')
           | (None, st'') \<Rightarrow>
               (case wrap of
                  None \<Rightarrow> (None, st'')
                | Some prefix \<Rightarrow> (Some (ValueError (prefix @ str_of_error e)), st''))))"
| "run_ops db [] st = (None, st)"
| "run_ops db (x # xs) st =
     (case run_op db x st of (Some e, st') \<Rightarrow> (Some e, st') | (None, st') \<Rightarrow> run_ops db xs st')"

section \<open>Streaming deployment of a single blueprint\<close>

text \<open>
  The blueprint's row in the configuration table: every call of
  \<open>_update_blueprint_deployed_status\<close> is one attempted \<open>UPDATE\<close>, made on a connection of
  its own; \<open>status_ok\<close> tells whether the attempt succeeds. The log keeps every attempt
  with its outcome. An empty object list is stored as \<open>NULL\<close>.
\<close>

record status_update =
  su_blueprint_id :: string
  su_deployed :: "string list option"
  su_error :: "string option"

type_synonym status_log = "(status_update \<times> bool) list"

definition update_blueprint_deployed_status ::
    "(status_update \<Rightarrow> bool) \<Rightarrow> status_log \<Rightarrow> string \<Rightarrow> string list \<Rightarrow> string option
       \<Rightarrow> error option \<times> status_log" where
  "update_blueprint_deployed_status status_ok log blueprint_id deployed_objects error_message =
     (let u = \<lparr> su_blueprint_id = blueprint_id,
                 su_deployed = (if deployed_objects = [] then None else Some deployed_objects),
                 su_error = error_message \<rparr>
      in if status_ok u then (None, log @ [(u, True)])
         else \<comment> \<open>the exception is caught and printed\<close> (None, log @ [(u, False)]))"

definition fq :: "string \<Rightarrow> string \<Rightarrow> string \<Rightarrow> string" where
  "fq database schema object_name = database @ ''.'' @ schema @ ''.'' @ object_name"

text \<open>\<open>x["node"].upper()\<close>.\<close>

definition subscript_upper :: "string field \<Rightarrow> error + string" where
  "subscript_upper f =
     (case subscript ''node'' f of
        Inl e \<Rightarrow> Inl e
      | Inr None \<Rightarrow> Inl (AttributeError ''NoneType object has no attribute upper'')
      | Inr (Some s) \<Rightarrow> Inr (py_upper s))"

text \<open>\<open>sec_node.get("load", True)\<close> as a condition.\<close>

definition load_flag :: "'a node_scheme \<Rightarrow> bool" where
  "load_flag n = (case n_load n of Absent \<Rightarrow> True | Present None \<Rightarrow> False | Present (Some b) \<Rightarrow> b)"

text \<open>
  \<open>binding_object = renderer.table.get("name")\<close>; every later use is
  \<open>binding_object.upper()\<close>, which raises when the name is \<open>None\<close>.
\<close>

definition with_binding_object :: "renderer \<Rightarrow> (string \<Rightarrow> op list) \<Rightarrow> op list" where
  "with_binding_object r k =
     (case t_name (r_table r) of
        None \<Rightarrow> [Raise (AttributeError ''NoneType object has no attribute upper'')]
      | Some b \<Rightarrow> k (py_upper b))"

definition with_primary_node :: "renderer \<Rightarrow> (string \<Rightarrow> op list) \<Rightarrow> op list" where
  "with_primary_node r k =
     (case subscript_upper (n_node (t_primary_node (r_table r))) of
        Inl e \<Rightarrow> [Raise e]
      | Inr p \<Rightarrow> k p)"

definition validation_phase :: "renderer \<Rightarrow> string \<Rightarrow> op list" where
  "validation_phase r blueprint_id =
     [Emit (ev ''INFO'' ''database_validation'' (context_target_database r) ''starting''),
      ExecCheck (''SHOW DATABASES LIKE '' @ quoted (context_target_database r))
        (ValueError (''Target database '' @ quoted (context_target_database r) @ '' does not exist'')),
      Emit (ev ''SUCCESS'' ''database_validation'' (context_target_database r) ''complete''),
      Done ''database_validation'',
      Emit (ev ''INFO'' ''source_validation'' blueprint_id ''starting''),
      Emit (ev ''SUCCESS'' ''source_validation'' blueprint_id ''complete''),
      Done ''source_validation'']"

definition view_phase :: "templates \<Rightarrow> renderer \<Rightarrow> op list" where
  "view_phase tm r =
     with_binding_object r (\<lambda>bo.
       [Emit (ev ''INFO'' ''stage_view'' (''VIEW_'' @ bo) ''starting''),
        Exec (create_view tm r),
        Track (fq (r_stage_database r) (r_stage_schema r)
                 (''STG_'' @ bo @ ''_'' @ py_upper (r_source_name r))),
        Emit (ev ''SUCCESS'' ''stage_view'' (''VIEW_'' @ bo) ''complete''),
        Done ''stage_view''])"

definition stream_phase :: "templates \<Rightarrow> renderer \<Rightarrow> op list" where
  "stream_phase tm r =
     with_binding_object r (\<lambda>bo.
       [Emit (ev ''INFO'' ''stream'' (''STREAM_'' @ bo) ''starting''),
        Exec (create_stream tm r),
        Track (fq (r_stage_database r) (r_stage_schema r) (''STREAM_'' @ bo)),
        Emit (ev ''SUCCESS'' ''stream'' (''STREAM_'' @ bo) ''complete''),
        Done ''stream''])"

text \<open>Only the secondary nodes whose load flag is on are tracked.\<close>

fun track_loaded :: "string \<Rightarrow> string \<Rightarrow> mapped_node list \<Rightarrow> op list" where
  "track_loaded database schema [] = []"
| "track_loaded database schema (n # ns) =
     (if load_flag n then
        (case subscript_upper (n_node n) of
           Inl e \<Rightarrow> [Raise e]
         | Inr s \<Rightarrow> Track (fq database schema (''NODE_'' @ s)) # track_loaded database schema ns)
      else track_loaded database schema ns)"

text \<open>
  The primary node is tracked before the node statements run, the loaded secondary nodes
  after them.
\<close>

definition nodes_phase :: "templates \<Rightarrow> renderer \<Rightarrow> op list" where
  "nodes_phase tm r =
     Emit (ev ''INFO'' ''nodes'' ''nodes'' ''starting'') #
     (case create_nodes tm r of
        Inl e \<Rightarrow> [Raise e]
      | Inr nodes_sqls \<Rightarrow>
          with_primary_node r (\<lambda>primary_node.
            Track (fq (context_target_database r) (r_target_schema r) (''NODE_'' @ primary_node))
            # map Exec nodes_sqls
            @ track_loaded (context_target_database r) (r_target_schema r)
                (t_secondary_nodes (r_table r))
            @ [Emit (ev ''SUCCESS'' ''nodes'' ''nodes'' ''complete''), Done ''nodes'']))"

fun track_edges :: "string \<Rightarrow> string \<Rightarrow> string \<Rightarrow> mapped_node list \<Rightarrow> op list" where
  "track_edges database schema p [] = []"
| "track_edges database schema p (n # ns) =
     (case subscript_upper (n_node n) of
        Inl e \<Rightarrow> [Raise e]
      | Inr s \<Rightarrow>
          Track (fq database schema (''EDGE_'' @ p @ ''_'' @ s)) # track_edges database schema p ns)"

text \<open>Every edge is tracked before the edge statements run.\<close>

definition edges_phase :: "templates \<Rightarrow> renderer \<Rightarrow> op list" where
  "edges_phase tm r =
     Emit (ev ''INFO'' ''edges'' ''edges'' ''starting'') #
     (case create_edges tm r of
        Inl e \<Rightarrow> [Raise e]
      | Inr edges_sqls \<Rightarrow>
          with_primary_node r (\<lambda>primary_node.
            track_edges (context_target_database r) (r_target_schema r) primary_node
              (t_secondary_nodes (r_table r))
            @ map Exec edges_sqls
            @ [Emit (ev ''SUCCESS'' ''edges'' ''edges'' ''complete''), Done ''edges'']))"

definition attr_table_name :: "renderer \<Rightarrow> string \<Rightarrow> string \<Rightarrow> string" where
  "attr_table_name r primary_node bo =
     ''ATTR_'' @ primary_node @ ''_'' @ bo @ ''_''
       @ (if r_source_name r \<noteq> [] then py_upper (r_source_name r) else ''UNKNOWN'')"

definition attributes_phase :: "templates \<Rightarrow> renderer \<Rightarrow> op list" where
  "attributes_phase tm r =
     with_primary_node r (\<lambda>primary_node.
       with_binding_object r (\<lambda>bo.
         [Emit (ev ''INFO'' ''attributes'' (attr_table_name r primary_node bo) ''starting''),
          Exec (create_attribute tm r),
          Track (fq (context_target_database r) (r_target_schema r)
                   (attr_table_name r primary_node bo)),
          Emit (ev ''SUCCESS'' ''attributes'' (attr_table_name r primary_node bo) ''complete''),
          Done ''attributes'']))"

definition mti_phase :: "templates \<Rightarrow> renderer \<Rightarrow> op list" where
  "mti_phase tm r =
     [Emit (ev ''INFO'' ''mti'' ''multi_table_insert'' ''starting''),
      Exec (mti tm r),
      Emit (ev ''SUCCESS'' ''mti'' ''multi_table_insert'' ''complete''),
      Done ''mti'']"

definition resume_task_sql :: "renderer \<Rightarrow> string \<Rightarrow> string" where
  "resume_task_sql r task_name =
     ''ALTER TASK '' @ fq (r_stage_database r) (r_stage_schema r) task_name @ '' RESUME''"

text \<open>
  Step 8: the task statement runs inside its own \<open>try\<close>; on failure an error event is
  yielded and \<open>ValueError("Task creation failed: ...")\<close> is raised. The statement after the
  \<open>try\<close> resumes the task.
\<close>

definition task_phase :: "templates \<Rightarrow> renderer \<Rightarrow> op list" where
  "task_phase tm r =
     with_binding_object r (\<lambda>bo.
       [Emit (ev ''INFO'' ''task'' (''TASK_'' @ bo) ''starting''),
        Try [Exec (create_task tm r)]
            [Emit (ev ''ERROR'' ''task'' (''TASK_'' @ bo) ''failed'')]
            (Some ''Task creation failed: ''),
        Exec (resume_task_sql r (''TASK_'' @ bo)),
        Track (fq (r_stage_database r) (r_stage_schema r) (''TASK_'' @ bo)),
        Emit (ev ''SUCCESS'' ''task'' (''TASK_'' @ bo) ''complete''),
        Done ''task''])"

definition count_sql :: "renderer \<Rightarrow> string \<Rightarrow> string" where
  "count_sql r object_name =
     ''SELECT COUNT(*) as count FROM ''
       @ fq (context_target_database r) (r_target_schema r) object_name"

fun count_loaded :: "renderer \<Rightarrow> mapped_node list \<Rightarrow> op list" where
  "count_loaded r [] = []"
| "count_loaded r (n # ns) =
     (if load_flag n then
        (case subscript_upper (n_node n) of
           Inl e \<Rightarrow> [Raise e]
         | Inr s \<Rightarrow>
             Exec (count_sql r (''NODE_'' @ s))
             # Emit (ev ''INFO'' ''full_refresh'' (''NODE_'' @ s) ''complete'')
             # count_loaded r ns)
      else count_loaded r ns)"

definition data_summary :: "renderer \<Rightarrow> string \<Rightarrow> string \<Rightarrow> op list" where
  "data_summary r primary_node bo =
     [Exec (count_sql r (''NODE_'' @ primary_node)),
      Exec (count_sql r (attr_table_name r primary_node bo)),
      Emit (ev ''SUCCESS'' ''full_refresh'' ''full_refresh_mti'' ''complete'')]
     @ count_loaded r (t_secondary_nodes (r_table r))"

text \<open>
  Step 9: the full-refresh text is segmented by the route; the truncate statements run one
  by one, the insert block as one statement, and a missing insert block is a warning.
\<close>

definition full_refresh_phase :: "templates \<Rightarrow> renderer \<Rightarrow> bool \<Rightarrow> op list" where
  "full_refresh_phase tm r run_full_refresh =
     (if run_full_refresh then
        Emit (ev ''INFO'' ''full_refresh'' ''full_refresh_mti'' ''starting'') #
        (case split_full_refresh (full_refresh_mti tm r) of
           (truncate_statements, insert_sql) \<Rightarrow>
             concat (map (\<lambda>t. [Exec t, Emit (ev ''INFO'' ''full_refresh'' ''truncate'' ''complete'')])
                       truncate_statements)
             @ (case insert_sql of
                  Some block \<Rightarrow> [Exec block]
                | None \<Rightarrow> [Emit (ev ''WARNING'' ''full_refresh'' ''insert_all'' ''warning'')])
             @ with_primary_node r (\<lambda>primary_node.
                 with_binding_object r (\<lambda>bo.
                   [Try (data_summary r primary_node bo)
                        [Emit (ev ''WARNING'' ''full_refresh'' ''data_summary'' ''partial'')]
                        None,
                    Done ''full_refresh''])))
      else [])"

definition deploy_body :: "templates \<Rightarrow> renderer \<Rightarrow> string \<Rightarrow> bool \<Rightarrow> op list" where
  "deploy_body tm r blueprint_id run_full_refresh =
     validation_phase r blueprint_id @ view_phase tm r @ stream_phase tm r @ nodes_phase tm r
     @ edges_phase tm r @ attributes_phase tm r @ mti_phase tm r @ task_phase tm r
     @ full_refresh_phase tm r run_full_refresh"

record deploy_result =
  dr_events :: "event list"
  dr_raised :: "error option"
  dr_trace :: trace
  dr_deployed :: "string list"
  dr_status_log :: status_log

text \<open>
  \<open>_deploy_single_blueprint_streaming\<close>: the events yielded, the exception the generator
  ends with (if any), the trace of the shared connection, the tracked objects and the
  status updates attempted.
\<close>

definition deploy_single_blueprint_streaming ::
    "config_store \<Rightarrow> templates \<Rightarrow> database \<Rightarrow> (status_update \<Rightarrow> bool) \<Rightarrow> trace
       \<Rightarrow> string \<Rightarrow> bool \<Rightarrow> bool \<Rightarrow> string option \<Rightarrow> deploy_result" where
  "deploy_single_blueprint_streaming cs tm db status_ok tr blueprint_id replace_objects
       run_full_refresh database_name =
     (let st0 = \<lparr> io_trace = tr,
                   io_events = [ev ''INFO'' ''initialization'' blueprint_id ''starting''],
                   io_deployed = [], io_steps = [] \<rparr>
      in case (case SQLRenderer cs blueprint_id replace_objects database_name of
                 Inl e \<Rightarrow> (Some e, st0)
               | Inr r \<Rightarrow> run_ops db (deploy_body tm r blueprint_id run_full_refresh) st0) of
           (None, st) \<Rightarrow>
             \<lparr> dr_events = io_events st @ [ev ''SUCCESS'' ''complete'' blueprint_id ''complete''],
               dr_raised = fst (update_blueprint_deployed_status status_ok [] blueprint_id
                                  (io_deployed st) None),
               dr_trace = io_trace st,
               dr_deployed = io_deployed st,
               dr_status_log = snd (update_blueprint_deployed_status status_ok [] blueprint_id
                                      (io_deployed st) None) \<rparr>
         | (Some e, st) \<Rightarrow>
             \<lparr> dr_events = io_events st @ [ev ''ERROR'' ''deployment'' blueprint_id ''failed''],
               dr_raised = Some e,
               dr_trace = io_trace st,
               dr_deployed = io_deployed st,
               dr_status_log = snd (update_blueprint_deployed_status status_ok [] blueprint_id
                                      (io_deployed st) (Some (str_of_error e))) \<rparr>)"


section \<open>Governance: tags and grants\<close>










section \<open>Staged deployment of a model\<close>








subsection \<open>Stage 1: staging\<close>




subsection \<open>Stage 2: data processing\<close>






subsection \<open>Stages 3 and 4: key storage and relationships\<close>








subsection \<open>Stage 5: data storage\<close>





subsection \<open>Stage 7: model deployment\<close>








subsection \<open>Stage 8: seed load\<close>




subsection \<open>The staged generator\<close>






section \<open>The staged deployment endpoint and the audit record\<close>

text \<open>
  The server-sent events of a run. \<open>LogMessage\<close> is a plain log line (only its level is
  kept), \<open>LogEvent\<close> a forwarded progress event.
\<close>

record summary =
  sm_message :: "string option"
  sm_total :: nat
  sm_successful :: "(string \<times> string) list"
  sm_failed :: "(string \<times> string \<times> string) list"

datatype sse =
    LogMessage string
  | LogEvent event
  | ModelStart string string nat nat
  | ModelComplete string string "string option"
  | Complete summary
  | ErrorEvent string
  | Close








record run_state =
  rs_events :: "sse list"
  rs_successful :: "(string \<times> string) list"
  rs_failed :: "(string \<times> string \<times> string) list"
  rs_trace :: trace

definition send_event :: "sse \<Rightarrow> run_state \<Rightarrow> run_state" where
  "send_event e rs = rs\<lparr>rs_events := rs_events rs @ [e]\<rparr>"







section \<open>Reading a generator body\<close>



fun op_tracks :: "op \<Rightarrow> string list" where
  "op_tracks (Track obj) = [obj]"
| "op_tracks (Try body handler wrap) = concat (map op_tracks body) @ concat (map op_tracks handler)"
| "op_tracks (Emit e) = []"
| "op_tracks (ExecThenEmit sql e) = []"
| "op_tracks (Exec sql) = []"
| "op_tracks (ExecCheck sql err) = []"
| "op_tracks (ExecQuiet sql) = []"
| "op_tracks (Done step) = []"
| "op_tracks (Raise e) = []"

definition tracks :: "op list \<Rightarrow> string list" where
  "tracks ops = concat (map op_tracks ops)"

text \<open>
  The part of step 9 that runs the segments: each truncate statement followed by its
  event, then the insert block, or the warning when no block was found.
\<close>

definition refresh_statements :: "string list \<times> string option \<Rightarrow> op list" where
  "refresh_statements seg =
     (case seg of
        (truncate_statements, insert_sql) \<Rightarrow>
          concat (map (\<lambda>t. [Exec t, Emit (ev ''INFO'' ''full_refresh'' ''truncate'' ''complete'')])
                    truncate_statements)
          @ (case insert_sql of
               Some block \<Rightarrow> [Exec block]
             | None \<Rightarrow> [Emit (ev ''WARNING'' ''full_refresh'' ''insert_all'' ''warning'')]))"

text \<open>The statements a body of \<open>client.run\<close> calls and \<open>yield\<close>s attempts, in order.\<close>

fun op_execs :: "op \<Rightarrow> string list" where
  "op_execs (Exec sql) = [sql]"
| "op_execs (Emit e) = []"
| "op_execs (ExecCheck sql err) = [sql]"
| "op_execs (ExecQuiet sql) = [sql]"
| "op_execs (ExecThenEmit sql e) = [sql]"
| "op_execs (Track obj) = []"
| "op_execs (Done step) = []"
| "op_execs (Raise e) = []"
| "op_execs (Try body handler wrap) = concat (map op_execs body) @ concat (map op_execs handler)"

definition execs :: "op list \<Rightarrow> string list" where
  "execs ops = concat (map op_execs ops)"

definition plain :: "op list \<Rightarrow> bool" where
  "plain ops = list_all (\<lambda>x. (case x of Exec sql \<Rightarrow> True | Emit e \<Rightarrow> True | _ \<Rightarrow> False)) ops"


text \<open>A body in which objects are tracked by top-level statements only.\<close>

definition flat_tracks :: "op list \<Rightarrow> bool" where
  "flat_tracks ops = list_all (\<lambda>x. (case x of Track obj \<Rightarrow> True | _ \<Rightarrow> op_tracks x = [])) ops"


text \<open>
  The pipeline of the staged generator, in the order of the source, and the two step names
  used by the governance events.
\<close>

definition stage_names :: "string list" where
  "stage_names =
     [''staging'', ''data_processing'', ''key_storage'', ''build_relationships'',
      ''data_storage'', ''supporting_artefacts'', ''model_deployment'', ''seed_load'',
      ''complete'']"

definition is_governance_step :: "string \<Rightarrow> bool" where
  "is_governance_step s = (s = ''apply_tags'' \<or> s = ''apply_grants'')"

fun index_of :: "string \<Rightarrow> string list \<Rightarrow> nat" where
  "index_of x [] = 0"
| "index_of x (y # ys) = (if x = y then 0 else Suc (index_of x ys))"

definition stage_rank :: "string \<Rightarrow> nat" where
  "stage_rank s = index_of s stage_names"

definition stage_ranks :: "event list \<Rightarrow> nat list" where
  "stage_ranks evs =
     map (\<lambda>e. stage_rank (ev_step e)) (filter (\<lambda>e. \<not> is_governance_step (ev_step e)) evs)"


section \<open>Example inputs\<close>

definition empty_node :: node where
  "empty_node = \<lparr> n_node = Absent, n_bindings = [], n_load = Absent \<rparr>"

definition example_blueprint :: blueprint where
  "example_blueprint =
     \<lparr> bp_name = Present (Some ''Test Asset Register''),
       bp_binding_object = Present (Some ''test_asset_register''),
       bp_binding_db = Present (Some ''RAW''),
       bp_binding_schema = Present (Some ''SAP''),
       bp_where_clause = Absent,
       bp_delete_condition = Absent,
       bp_ingest_time_binding = Present None,
       bp_ingest_time = Absent,
       bp_columns =
         [\<lparr> c_name = Present (Some ''cost''), c_binding = Present (Some ''COST_AMT''),
            c_alias = Present None, c_data_type = Present (Some ''NUMBER''),
            c_description = Present None \<rparr>],
       bp_primary_node =
         \<lparr> n_node = Present (Some ''work order''),
           n_bindings = [\<lparr> b_name = Present (Some ''id''), b_binding = Present (Some ''WO_ID'') \<rparr>],
           n_load = Absent \<rparr>,
       bp_secondary_nodes =
         [\<lparr> n_node = Present (Some ''asset''),
            n_bindings = [\<lparr> b_name = Present (Some ''asset_id''), b_binding = Present (Some ''ASSET_ID'') \<rparr>],
            n_load = Present (Some False) \<rparr>] \<rparr>"


definition example_templates :: templates where
  "example_templates name r extra =
     Some (name @ ''/'' @ r_source r @ ''/'' @ py_join '','' (map snd extra))"

definition example_renderer :: renderer where
  "example_renderer =
     \<lparr> r_source = ''wo'',
       r_replace_objects = True,
       r_target_database_override = None,
       r_target_database = ''unified_honey'',
       r_target_schema = ''storage'',
       r_stage_database = ''APP'',
       r_stage_schema = ''stage'',
       r_source_name = ''sap'',
       r_table = normalize_blueprint example_blueprint \<rparr>"

definition example_refresh_sql :: string where
  "example_refresh_sql =
     ''TRUNCATE TABLE DB.S.NODE_A;'' @ [CHR 0x0A] @
     ''  TRUNCATE TABLE DB.S.ATTR_A;  '' @ [CHR 0x0A] @
     ''INSERT ALL'' @ [CHR 0x0A] @
     ''  INTO DB.S.NODE_A VALUES (K)'' @ [CHR 0x0A] @
     ''SELECT K'' @ [CHR 0x0A] @
     ''FROM SRC;'' @ [CHR 0x0A]"

text \<open>
  An engine whose full-refresh template renders to the layout the deployment route
  expects (truncate statements followed by one \<open>INSERT ALL\<close>), and an engine that is
  unavailable, so that \<open>render\<close> returns its fallback comment.
\<close>

definition refresh_templates :: templates where
  "refresh_templates name r extra =
     (if name = ''full_refresh_mti.sql'' then Some example_refresh_sql
      else example_templates name r extra)"

definition no_templates :: templates where
  "no_templates name r extra = None"

definition all_ok :: database where
  "all_ok tr sql = Inr 1"

definition empty_state :: io_state where
  "empty_state = \<lparr> io_trace = [], io_events = [], io_deployed = [], io_steps = [] \<rparr>"

text \<open>
  A blueprint with a display name and bound database and schema whose binding object is
  \<open>None\<close>, and the store and renderer for it.
\<close>

definition display_name_blueprint :: blueprint where
  "display_name_blueprint = example_blueprint\<lparr>bp_binding_object := Present None\<rparr>"

definition display_name_store :: config_store where
  "display_name_store =
     \<lparr> cs_lookup = (\<lambda>source. if source = ''wo'' then Inr (Some (display_name_blueprint, Some ''sap''))
                               else Inr None),
       cs_target_database = ''unified_honey'',
       cs_target_schema = ''storage'',
       cs_stage_database = ''APP'',
       cs_stage_schema = ''stage'' \<rparr>"

definition display_name_renderer :: renderer where
  "display_name_renderer = example_renderer\<lparr>r_table := normalize_blueprint display_name_blueprint\<rparr>"













section \<open>Verified properties\<close>

subsection \<open>Binding normaliser\<close>

lemma t_name_normalize:
  "t_name (normalize_blueprint bp) = py_or (dget (bp_binding_object bp)) (dget (bp_name bp))"
  by (simp add: normalize_blueprint_def)

lemma t_name_cases:
  "(truthy (dget (bp_binding_object bp)) \<longrightarrow>
      t_name (normalize_blueprint bp) = dget (bp_binding_object bp))
   \<and> (\<not> truthy (dget (bp_binding_object bp)) \<longrightarrow>
      t_name (normalize_blueprint bp) = dget (bp_name bp))"
  by (simp add: t_name_normalize py_or_def)

text \<open>
  C5: the claim is what the comments of the normaliser and of the deployment route state
  (the physical name is always the binding object, never the display name), and the
  normaliser does not keep it. For a blueprint with a display name, a bound database and
  schema and no binding object, construction of the renderer succeeds (the validator does
  not look at the binding object), the table name of the canonical model is the display
  name, and the stage view is announced under a name with spaces in it.
\<close>

theorem normalize_name_display_fallback:
  "dget (bp_binding_object display_name_blueprint) = None
   \<and> SQLRenderer display_name_store ''wo'' True None = Inr display_name_renderer
   \<and> t_name (r_table display_name_renderer) = Some ''Test Asset Register''
   \<and> hd (view_phase example_templates display_name_renderer)
       = Emit (ev ''INFO'' ''stage_view'' ''VIEW_TEST ASSET REGISTER'' ''starting'')"
proof -
  have a: "dget (bp_binding_object display_name_blueprint) = None"
    by (simp add: display_name_blueprint_def dget_def)
  have n: "t_name (normalize_blueprint display_name_blueprint) = Some ''Test Asset Register''"
    by (simp add: t_name_normalize py_or_def display_name_blueprint_def example_blueprint_def
        dget_def truthy_def)
  have v: "validate_bindings ''wo'' (normalize_blueprint display_name_blueprint) = Inr ()"
    by (simp add: display_name_blueprint_def example_blueprint_def normalize_blueprint_def
        map_column_def map_node_def dget_def truthy_def missing_bindings_def missing_columns_def
        missing_primary_def missing_secondary_node_def validate_bindings_def py_or_def)
  have r: "SQLRenderer display_name_store ''wo'' True None = Inr display_name_renderer"
    by (simp add: SQLRenderer_def display_name_store_def v truthy_def display_name_renderer_def
        example_renderer_def)
  have t: "t_name (r_table display_name_renderer) = Some ''Test Asset Register''"
    by (simp add: display_name_renderer_def n)
  have h: "hd (view_phase example_templates display_name_renderer)
       = Emit (ev ''INFO'' ''stage_view'' ''VIEW_TEST ASSET REGISTER'' ''starting'')"
    by (simp add: view_phase_def with_binding_object_def t py_upper_def char_upper_def
        is_ascii_lower_def)
  from a r t h show ?thesis by simp
qed

subsection \<open>Binding validator\<close>

lemma py_join_contains: "p \<in> set ps \<Longrightarrow> \<exists>pre post. py_join sep ps = pre @ p @ post"
proof (induction sep ps rule: py_join.induct)
  case (1 sep)
  then show ?case by simp
next
  case (2 sep x)
  then have "py_join sep [x] = [] @ p @ []" by simp
  then show ?case by blast
next
  case (3 sep x y ys)
  show ?case
  proof (cases "p = x")
    case True
    then have "py_join sep (x # y # ys) = [] @ p @ (sep @ py_join sep (y # ys))" by simp
    then show ?thesis by blast
  next
    case False
    with 3 obtain pre post where "py_join sep (y # ys) = pre @ p @ post" by auto
    then have "py_join sep (x # y # ys) = (x @ sep @ pre) @ p @ post" by simp
    then show ?thesis by blast
  qed
qed

lemma length_missing_bindings: "length (missing_bindings t) = violation_count t"
  by (simp add: missing_bindings_def violation_count_def missing_columns_def missing_primary_def
      missing_secondary_node_def unbound_columns_def unbound_keys_def length_concat comp_def)

lemma missing_bindings_all_named:
  assumes "\<forall>c\<in>set (unbound_columns t). mc_name c \<noteq> None"
  shows "list_all (\<lambda>m. m \<noteq> None) (missing_bindings t)"
  using assms
  by (auto simp: list_all_iff missing_bindings_def missing_columns_def missing_primary_def
      missing_secondary_node_def unbound_columns_def)

lemma unbound_column_listed:
  "c \<in> set (unbound_columns t) \<Longrightarrow> mc_name c \<noteq> None \<Longrightarrow>
   the (mc_name c) \<in> set (map the (missing_bindings t))"
  by (force simp: missing_bindings_def missing_columns_def unbound_columns_def)

lemma unbound_primary_key_listed:
  "b \<in> set (unbound_keys (n_bindings (t_primary_node t))) \<Longrightarrow>
   primary_path b \<in> set (map the (missing_bindings t))"
  by (force simp: missing_bindings_def missing_primary_def unbound_keys_def primary_path_def)

lemma unbound_secondary_key_listed:
  "sn \<in> set (t_secondary_nodes t) \<Longrightarrow> b \<in> set (unbound_keys (n_bindings sn)) \<Longrightarrow>
   secondary_path sn b \<in> set (map the (missing_bindings t))"
  by (force simp: missing_bindings_def missing_secondary_node_def unbound_keys_def
      secondary_path_def)

lemmas validator_example_defs =
  unbound_blueprint_def normalize_blueprint_def map_column_def map_node_def dget_def truthy_def
  unbound_columns_def unbound_keys_def violation_count_def missing_bindings_def
  missing_columns_def missing_primary_def missing_secondary_node_def validate_bindings_def
  join_missing_def py_or_def dget_default_def fmt_def quoted_def

text \<open>
  C2 (as stated) fails: a table with no database binding and three further missing
  bindings is rejected with an error that names \<open>binding_db\<close> only; the validator stops at
  this first violation.
\<close>

theorem validate_bindings_counterexample:
  "validate_bindings ''wo'' (normalize_blueprint (unbound_blueprint\<lparr>bp_binding_db := Present None\<rparr>))
     = Inl (ValueError ''Blueprint 'wo' missing binding_db'')
   \<and> violation_count (normalize_blueprint (unbound_blueprint\<lparr>bp_binding_db := Present None\<rparr>)) = 3"
  by (simp add: validator_example_defs)

lemma validate_bindings_missing_database:
  "\<not> truthy (t_database t) \<Longrightarrow>
   validate_bindings source t = Inl (ValueError (''Blueprint '' @ quoted source @ '' missing binding_db''))"
  by (simp add: validate_bindings_def)

lemma validate_bindings_missing_schema:
  "truthy (t_database t) \<Longrightarrow> \<not> truthy (t_schema t) \<Longrightarrow>
   validate_bindings source t
     = Inl (ValueError (''Blueprint '' @ quoted source @ '' missing binding_schema''))"
  by (simp add: validate_bindings_def)

text \<open>
  C2 (amended): for every canonical table model whose database and schema are set and in
  which every unbound column has a name, validation does not stop at the first missing
  binding: when at least one column projection, primary-node key or secondary-node key has
  no binding, it raises one \<open>ValueError\<close> whose message is the comma-separated list of all
  of them, one entry per violation, each entry being the column name, or
  \<open>primary_node.<key>\<close>, or \<open>secondary_node.<node>.<key>\<close>. (A missing database, and then
  a missing schema, is reported alone and before any binding is examined.)
\<close>

theorem validate_bindings_accumulates:
  assumes db: "truthy (t_database t)" and sc: "truthy (t_schema t)"
      and pos: "0 < violation_count t"
      and named: "\<forall>c\<in>set (unbound_columns t). mc_name c \<noteq> None"
  shows "\<exists>paths. validate_bindings source t =
            Inl (ValueError (''Blueprint '' @ quoted source @ '' has missing field bindings: ''
                   @ py_join '', '' paths))
          \<and> length paths = violation_count t
          \<and> (\<forall>c\<in>set (unbound_columns t). the (mc_name c) \<in> set paths)
          \<and> (\<forall>b\<in>set (unbound_keys (n_bindings (t_primary_node t))). primary_path b \<in> set paths)
          \<and> (\<forall>sn\<in>set (t_secondary_nodes t). \<forall>b\<in>set (unbound_keys (n_bindings sn)).
                 secondary_path sn b \<in> set paths)
          \<and> (\<forall>p\<in>set paths. \<exists>pre post. py_join '', '' paths = pre @ p @ post)"
proof -
  let ?paths = "map the (missing_bindings t)"
  have ne: "missing_bindings t \<noteq> []" using pos length_missing_bindings [of t] by auto
  have "validate_bindings source t =
            Inl (ValueError (''Blueprint '' @ quoted source @ '' has missing field bindings: ''
                   @ py_join '', '' ?paths))"
    using db sc ne missing_bindings_all_named [OF named]
    by (simp add: validate_bindings_def join_missing_def)
  moreover have "length ?paths = violation_count t" by (simp add: length_missing_bindings)
  moreover have "\<forall>c\<in>set (unbound_columns t). the (mc_name c) \<in> set ?paths"
    using named unbound_column_listed by blast
  moreover have "\<forall>b\<in>set (unbound_keys (n_bindings (t_primary_node t))). primary_path b \<in> set ?paths"
    using unbound_primary_key_listed by blast
  moreover have "\<forall>sn\<in>set (t_secondary_nodes t). \<forall>b\<in>set (unbound_keys (n_bindings sn)).
                 secondary_path sn b \<in> set ?paths"
    using unbound_secondary_key_listed by blast
  moreover have "\<forall>p\<in>set ?paths. \<exists>pre post. py_join '', '' ?paths = pre @ p @ post"
    using py_join_contains by blast
  ultimately show ?thesis by blast
qed

theorem validate_bindings_accumulates_witness:
  "validate_bindings ''wo'' (normalize_blueprint unbound_blueprint)
     = Inl (ValueError
         ''Blueprint 'wo' has missing field bindings: cost, primary_node.id, secondary_node.asset.asset_id'')
   \<and> violation_count (normalize_blueprint unbound_blueprint) = 3"
proof -
  have a: "truthy (t_database (normalize_blueprint unbound_blueprint))"
    by (simp add: validator_example_defs)
  have b: "truthy (t_schema (normalize_blueprint unbound_blueprint))"
    by (simp add: validator_example_defs)
  have c: "0 < violation_count (normalize_blueprint unbound_blueprint)"
    by (simp add: validator_example_defs)
  have d: "\<forall>c\<in>set (unbound_columns (normalize_blueprint unbound_blueprint)). mc_name c \<noteq> None"
    by (simp add: validator_example_defs)
  have e: "violation_count (normalize_blueprint unbound_blueprint) = 3"
    by (simp add: validator_example_defs)
  have f: "validate_bindings ''wo'' (normalize_blueprint unbound_blueprint)
     = Inl (ValueError
         ''Blueprint 'wo' has missing field bindings: cost, primary_node.id, secondary_node.asset.asset_id'')"
    by (simp add: validator_example_defs)
  from validate_bindings_accumulates [OF a b c d, of "''wo''"] e f show ?thesis by simp
qed


subsection \<open>Node and edge statements\<close>

lemma clean_node_present: "clean_node (Present (Some s)) = Inr (upper_clean s)"
  by (simp add: clean_node_def subscript_def)

lemma nodes_loop_length:
  "\<forall>n\<in>set ns. \<exists>s. n_node n = Present (Some s) \<Longrightarrow>
   \<exists>out. nodes_loop tm r ns sqls = Inr out \<and> length out = length sqls + length ns"
proof (induction ns arbitrary: sqls)
  case Nil
  then show ?case by simp
next
  case (Cons n ns)
  then obtain s where s: "n_node n = Present (Some s)" by auto
  from Cons have "\<forall>n\<in>set ns. \<exists>s. n_node n = Present (Some s)" by simp
  then show ?case
    using Cons.IH [of "sqls @ [render tm r ''create_node.sql'' [(''node'', upper_clean s)]]"]
    by (auto simp: s clean_node_present)
qed

lemma edges_loop_length:
  "\<forall>n\<in>set ns. \<exists>s. n_node n = Present (Some s) \<Longrightarrow>
   \<exists>out. edges_loop tm r p ns sqls = Inr out \<and> length out = length sqls + length ns"
proof (induction ns arbitrary: sqls)
  case Nil
  then show ?case by simp
next
  case (Cons n ns)
  then obtain s where s: "n_node n = Present (Some s)" by auto
  from Cons have "\<forall>n\<in>set ns. \<exists>s. n_node n = Present (Some s)" by simp
  then show ?case
    using Cons.IH [of "sqls @ [render tm r ''create_edge.sql''
                                 [(''primary'', p), (''secondary'', upper_clean s)]]"]
    by (auto simp: s clean_node_present)
qed

text \<open>
  C6: for a table whose primary node and \<open>k\<close> secondary nodes all carry an entity name,
  \<open>create_nodes\<close> returns exactly \<open>1 + k\<close> statements, whatever the load flags are, and
  \<open>create_edges\<close> returns exactly \<open>k\<close> statements; with no secondary node the edge list is
  empty and no error is raised.
\<close>

theorem node_and_edge_statement_counts:
  assumes "n_node (t_primary_node (r_table r)) = Present (Some p)"
      and "\<forall>n\<in>set (t_secondary_nodes (r_table r)). \<exists>s. n_node n = Present (Some s)"
  shows "\<exists>ns es. create_nodes tm r = Inr ns
           \<and> length ns = 1 + length (t_secondary_nodes (r_table r))
           \<and> create_edges tm r = Inr es
           \<and> length es = length (t_secondary_nodes (r_table r))
           \<and> (t_secondary_nodes (r_table r) = [] \<longrightarrow> es = [])"
proof -
  have c: "clean_node (n_node (t_primary_node (r_table r))) = Inr (upper_clean p)"
    by (simp add: assms(1) clean_node_present)
  from nodes_loop_length [OF assms(2), of tm r "[render tm r ''create_node.sql'' [(''node'', upper_clean p)]]"]
  obtain ns where "create_nodes tm r = Inr ns"
      "length ns = 1 + length (t_secondary_nodes (r_table r))"
    by (auto simp: create_nodes_def c)
  moreover from edges_loop_length [OF assms(2), of tm r "upper_clean p" "[]"]
  obtain es where "create_edges tm r = Inr es" "length es = length (t_secondary_nodes (r_table r))"
    by (auto simp: create_edges_def c)
  ultimately show ?thesis by auto
qed

theorem node_and_edge_statement_counts_witness:
  "n_load (hd (t_secondary_nodes (r_table example_renderer))) = Present (Some False)
   \<and> (\<exists>ns es. create_nodes example_templates example_renderer = Inr ns \<and> length ns = 2
         \<and> create_edges example_templates example_renderer = Inr es \<and> length es = 1)"
proof -
  have p: "n_node (t_primary_node (r_table example_renderer)) = Present (Some ''work order'')"
    by (simp add: example_renderer_def example_blueprint_def normalize_blueprint_def map_node_def)
  have s: "\<forall>n\<in>set (t_secondary_nodes (r_table example_renderer)). \<exists>s. n_node n = Present (Some s)"
    by (simp add: example_renderer_def example_blueprint_def normalize_blueprint_def map_node_def)
  have k: "length (t_secondary_nodes (r_table example_renderer)) = 1"
    by (simp add: example_renderer_def example_blueprint_def normalize_blueprint_def)
  have l: "n_load (hd (t_secondary_nodes (r_table example_renderer))) = Present (Some False)"
    by (simp add: example_renderer_def example_blueprint_def normalize_blueprint_def map_node_def)
  from node_and_edge_statement_counts [OF p s, of example_templates] k l
  show ?thesis by auto
qed



subsection \<open>Derived object names\<close>

lemma secondary_by_key:
  "map (\<lambda>n. g (node_upper n)) (filter has_node ns)
     = map (\<lambda>f. g (py_upper (the (dget_default f (Some [])))))
         (filter (\<lambda>f. truthy (dget f)) (map n_node ns))"
  by (induction ns) (auto simp: has_node_def node_upper_def)

lemma names_by_key:
  assumes "n_node (bp_primary_node bp1) = n_node (bp_primary_node bp2)"
      and "map n_node (bp_secondary_nodes bp1) = map n_node (bp_secondary_nodes bp2)"
  shows "node_names bp1 = node_names bp2" "edge_names bp1 = edge_names bp2"
     "has_node (bp_primary_node bp1) = has_node (bp_primary_node bp2)"
     "node_upper (bp_primary_node bp1) = node_upper (bp_primary_node bp2)"
proof -
  show h: "has_node (bp_primary_node bp1) = has_node (bp_primary_node bp2)"
    by (simp add: has_node_def assms(1))
  show u: "node_upper (bp_primary_node bp1) = node_upper (bp_primary_node bp2)"
    by (simp add: node_upper_def assms(1))
  show "node_names bp1 = node_names bp2"
    unfolding node_names_def h u secondary_by_key [of "\<lambda>s. ''NODE_'' @ s"] assms(2) ..
  show "edge_names bp1 = edge_names bp2"
    unfolding edge_names_def h u
      secondary_by_key [of "\<lambda>s. ''EDGE_'' @ node_upper (bp_primary_node bp2) @ ''_'' @ s"]
      assms(2) ..
qed

text \<open>
  C9: the derived object names are a function of the model alone, and in fact only of its
  binding object, its source name and the entity names of its primary and secondary nodes:
  two computations from models that agree on these (in particular two computations from
  the same unchanged model) give identical \<open>VIEW_\<close>, \<open>STREAM_\<close>, \<open>TASK_\<close>, \<open>NODE_\<close>,
  \<open>EDGE_\<close> and \<open>ATTR_\<close> names.
\<close>

theorem derived_names_deterministic:
  assumes "dget_default (bp_binding_object bp1) (Some []) = dget_default (bp_binding_object bp2) (Some [])"
      and "n_node (bp_primary_node bp1) = n_node (bp_primary_node bp2)"
      and "map n_node (bp_secondary_nodes bp1) = map n_node (bp_secondary_nodes bp2)"
  shows "blueprint_names src bp1 = blueprint_names src bp2"
  using names_by_key [OF assms(2,3)] assms(1)
  by (simp add: blueprint_names_def Let_def)

theorem derived_names_deterministic_witness:
  "blueprint_names ''sap'' example_blueprint
     = blueprint_names ''sap'' (example_blueprint\<lparr>bp_name := Present (Some ''Renamed''), bp_columns := []\<rparr>)
   \<and> dn_edges (blueprint_names ''sap'' example_blueprint) = [''EDGE_WORK ORDER_ASSET'']"
proof -
  let ?bp2 = "example_blueprint\<lparr>bp_name := Present (Some ''Renamed''), bp_columns := []\<rparr>"
  have a: "dget_default (bp_binding_object example_blueprint) (Some [])
             = dget_default (bp_binding_object ?bp2) (Some [])" by simp
  have b: "n_node (bp_primary_node example_blueprint) = n_node (bp_primary_node ?bp2)" by simp
  have c: "map n_node (bp_secondary_nodes example_blueprint) = map n_node (bp_secondary_nodes ?bp2)"
    by simp
  have d: "dn_edges (blueprint_names ''sap'' example_blueprint) = [''EDGE_WORK ORDER_ASSET'']"
    by (simp add: blueprint_names_def example_blueprint_def edge_names_def has_node_def
        node_upper_def dget_def dget_default_def truthy_def py_upper_def char_upper_def
        is_ascii_lower_def)
  from derived_names_deterministic [OF a b c, of "''sap''"] d show ?thesis by simp
qed

subsection \<open>Full-refresh segmentation\<close>

lemma scan_lines_truncs:
  "scan_lines ls i truncs start = (T, S, E) \<Longrightarrow>
   \<exists>new. T = truncs @ new \<and> (\<forall>t\<in>set new. \<exists>l\<in>set ls. t = py_strip l \<and> is_truncate t)"
proof (induction ls arbitrary: i truncs start)
  case Nil
  then show ?case by simp
next
  case (Cons line rest)
  show ?case
  proof (cases "is_truncate (py_strip line)")
    case True
    with Cons.prems have "scan_lines rest (Suc i) (truncs @ [py_strip line]) start = (T, S, E)"
      by simp
    from Cons.IH [OF this] obtain new where
      "T = (truncs @ [py_strip line]) @ new"
      "\<forall>t\<in>set new. \<exists>l\<in>set rest. t = py_strip l \<and> is_truncate t"
      by blast
    then have "T = truncs @ (py_strip line # new) \<and>
       (\<forall>t\<in>set (py_strip line # new). \<exists>l\<in>set (line # rest). t = py_strip l \<and> is_truncate t)"
      using True by auto
    then show ?thesis by blast
  next
    case False
    note nt = False
    show ?thesis
    proof (cases "contains ''INSERT ALL'' (py_strip line)")
      case True
      with nt Cons.prems have "scan_lines rest (Suc i) truncs (Some i) = (T, S, E)" by simp
      from Cons.IH [OF this] show ?thesis by auto
    next
      case False
      note ni = False
      show ?thesis
      proof (cases "start \<noteq> None \<and> is_from_end (py_strip line)")
        case True
        with nt ni Cons.prems have "T = truncs" by auto
        then show ?thesis by simp
      next
        case False
        with nt ni Cons.prems have "scan_lines rest (Suc i) truncs start = (T, S, E)" by auto
        from Cons.IH [OF this] show ?thesis by auto
      qed
    qed
  qed
qed

lemma scan_lines_block:
  "scan_lines ls i truncs start = (T, Some a, Some b) \<Longrightarrow>
   (case start of None \<Rightarrow> True | Some s \<Rightarrow> s < i) \<Longrightarrow>
   a < b \<and> i \<le> b \<and> b < i + length ls \<and> is_from_end (py_strip (ls ! (b - i)))
   \<and> (start = Some a \<or> (i \<le> a \<and> contains ''INSERT ALL'' (py_strip (ls ! (a - i)))))"
proof (induction ls arbitrary: i truncs start)
  case Nil
  then show ?case by simp
next
  case (Cons line rest)
  have later: "(case start of None \<Rightarrow> True | Some s \<Rightarrow> s < Suc i)"
    using Cons.prems(2) by (auto split: option.splits)
  show ?case
  proof (cases "is_truncate (py_strip line)")
    case True
    with Cons.prems
    have "scan_lines rest (Suc i) (truncs @ [py_strip line]) start = (T, Some a, Some b)" by simp
    then have "a < b \<and> Suc i \<le> b \<and> b < Suc i + length rest
        \<and> is_from_end (py_strip (rest ! (b - Suc i)))
        \<and> (start = Some a \<or> (Suc i \<le> a \<and> contains ''INSERT ALL'' (py_strip (rest ! (a - Suc i)))))"
      using later by (rule Cons.IH)
    then show ?thesis by (auto simp: nth_Cons' Suc_diff_le)
  next
    case False
    note nt = False
    show ?thesis
    proof (cases "contains ''INSERT ALL'' (py_strip line)")
      case True
      with nt Cons.prems have "scan_lines rest (Suc i) truncs (Some i) = (T, Some a, Some b)"
        by simp
      moreover have "(case Some i of None \<Rightarrow> True | Some s \<Rightarrow> s < Suc i)" by simp
      ultimately have "a < b \<and> Suc i \<le> b \<and> b < Suc i + length rest
          \<and> is_from_end (py_strip (rest ! (b - Suc i)))
          \<and> (Some i = Some a \<or> (Suc i \<le> a \<and> contains ''INSERT ALL'' (py_strip (rest ! (a - Suc i)))))"
        by (rule Cons.IH)
      then show ?thesis using True by (auto simp: nth_Cons' Suc_diff_le)
    next
      case False
      note ni = False
      show ?thesis
      proof (cases "start \<noteq> None \<and> is_from_end (py_strip line)")
        case True
        with nt ni Cons.prems have "start = Some a" "b = i" by auto
        then show ?thesis using True Cons.prems(2) by auto
      next
        case False
        with nt ni Cons.prems have "scan_lines rest (Suc i) truncs start = (T, Some a, Some b)"
          by auto
        then have "a < b \<and> Suc i \<le> b \<and> b < Suc i + length rest
            \<and> is_from_end (py_strip (rest ! (b - Suc i)))
            \<and> (start = Some a \<or> (Suc i \<le> a \<and> contains ''INSERT ALL'' (py_strip (rest ! (a - Suc i)))))"
          using later by (rule Cons.IH)
        then show ?thesis by (auto simp: nth_Cons' Suc_diff_le)
      qed
    qed
  qed
qed


subsection \<open>Running generator bodies\<close>

lemma run_ops_append:
  "run_ops db (xs @ ys) st =
     (case run_ops db xs st of (Some e, st') \<Rightarrow> (Some e, st') | (None, st') \<Rightarrow> run_ops db ys st')"
  by (induction xs arbitrary: st) (auto split: prod.splits option.splits)

lemma attempt_result:
  assumes "attempt db sql st = (r, st')"
  shows "r = db (io_trace st) sql" "io_trace st' = io_trace st @ [(sql, \<not> isl r)]"
    "io_events st' = io_events st" "io_deployed st' = io_deployed st" "io_steps st' = io_steps st"
  using assms by (cases "db (io_trace st) sql"; auto simp: attempt_def)+

lemma attempt_fields [simp]:
  "io_events (snd (attempt db sql st)) = io_events st"
  "io_deployed (snd (attempt db sql st)) = io_deployed st"
  "io_steps (snd (attempt db sql st)) = io_steps st"
  "io_trace (snd (attempt db sql st)) = io_trace st @ [(sql, \<not> isl (db (io_trace st) sql))]"
  by (cases "db (io_trace st) sql"; simp add: attempt_def)+

lemma yield_fields [simp]:
  "io_events (yield e st) = io_events st @ [e]"
  "io_deployed (yield e st) = io_deployed st"
  "io_steps (yield e st) = io_steps st"
  "io_trace (yield e st) = io_trace st"
  by (auto simp: yield_def)


lemma deployed_unchanged:
  "(run_op db x st = (res, st') \<longrightarrow> op_tracks x = [] \<longrightarrow> io_deployed st' = io_deployed st)"
  "(run_ops db xs st = (res, st') \<longrightarrow> tracks xs = [] \<longrightarrow> io_deployed st' = io_deployed st)"
proof (induction db x st and db xs st arbitrary: res st' and res st' rule: run_op_run_ops.induct)
  case (9 db body handler wrap st)
  show ?case
  proof (intro impI)
    assume r: "run_op db (Try body handler wrap) st = (res, st')" and t: "op_tracks (Try body handler wrap) = []"
    from t have tb: "tracks body = []" and th: "tracks handler = []" by (auto simp: tracks_def)
    obtain rb sb where b: "run_ops db body st = (rb, sb)" by fastforce
    with 9(1) tb have db: "io_deployed sb = io_deployed st" by blast
    show "io_deployed st' = io_deployed st"
    proof (cases rb)
      case None
      with r b db show ?thesis by simp
    next
      case (Some e)
      obtain rh sh where h: "run_ops db handler sb = (rh, sh)" by fastforce
      from 9(2)[OF b[symmetric, unfolded Some] refl, of rh sh ] h th have "io_deployed sh = io_deployed sb" 
        using Some by auto
      with r b h Some db show ?thesis by (auto split: option.splits)
    qed
  qed
next
  case (11 db x xs st)
  show ?case
  proof (intro impI)
    assume r: "run_ops db (x # xs) st = (res, st')" and t: "tracks (x # xs) = []"
    from t have tx: "op_tracks x = []" and txs: "tracks xs = []" by (auto simp: tracks_def)
    obtain r1 s1 where x: "run_op db x st = (r1, s1)" by fastforce
    with 11(1) tx have d1: "io_deployed s1 = io_deployed st" by blast
    show "io_deployed st' = io_deployed st"
    proof (cases r1)
      case None
      with 11(2)[OF x[symmetric, unfolded None] refl] txs r x have "io_deployed st' = io_deployed s1" by auto
      with d1 show ?thesis by simp
    next
      case (Some e)
      with r x d1 show ?thesis by simp
    qed
  qed
qed (auto simp: tracks_def dest: attempt_result split: prod.splits sum.splits if_splits)


lemma run_ops_tracks:
  assumes "flat_tracks ops" "run_ops db ops st = (res, st')"
  shows "(res = None \<longrightarrow> io_deployed st' = io_deployed st @ tracks ops)
       \<and> (\<exists>k. io_deployed st' = io_deployed st @ take k (tracks ops))"
  using assms
proof (induction ops arbitrary: st)
  case Nil
  then show ?case by (simp add: tracks_def)
next
  case (Cons x xs)
  from Cons.prems(1) have fx: "(\<exists>obj. x = Track obj) \<or> op_tracks x = []" and fxs: "flat_tracks xs"
    by (auto simp: flat_tracks_def split: op.splits)
  obtain r1 s1 where x: "run_op db x st = (r1, s1)" by fastforce
  have d1: "io_deployed s1 = io_deployed st @ op_tracks x"
  proof (cases "\<exists>obj. x = Track obj")
    case True
    with x show ?thesis by auto
  next
    case False
    with fx have "op_tracks x = []" by simp
    with deployed_unchanged(1) x show ?thesis by simp
  qed
  show ?case
  proof (cases r1)
    case None
    with Cons.prems(2) x have "run_ops db xs s1 = (res, st')" by simp
    from Cons.IH [OF fxs this] obtain k where
        a: "res = None \<longrightarrow> io_deployed st' = io_deployed s1 @ tracks xs"
        and b: "io_deployed st' = io_deployed s1 @ take k (tracks xs)" by blast
    from a d1 have "res = None \<longrightarrow> io_deployed st' = io_deployed st @ tracks (x # xs)"
      by (simp add: tracks_def)
    moreover from b d1 have "io_deployed st' = io_deployed st @ take (length (op_tracks x) + k) (tracks (x # xs))"
      by (simp add: tracks_def)
    ultimately show ?thesis by blast
  next
    case (Some e)
    with Cons.prems(2) x have "res = Some e" "st' = s1" by auto
    moreover have "io_deployed s1 = io_deployed st @ take (length (op_tracks x)) (tracks (x # xs))"
      using d1 by (simp add: tracks_def)
    ultimately show ?thesis by blast
  qed
qed



subsection \<open>Full refresh in the deployment route\<close>

lemma split_full_refresh_scan:
  assumes "split_full_refresh sql = (truncs, ins)"
  shows "(\<forall>t\<in>set truncs. \<exists>l\<in>set (split_on (CHR 0x0A) sql). t = py_strip l \<and> is_truncate t)
    \<and> (\<forall>block. ins = Some block \<longrightarrow>
          (\<exists>a b. a < b \<and> b < length (split_on (CHR 0x0A) sql)
             \<and> contains ''INSERT ALL'' (py_strip (split_on (CHR 0x0A) sql ! a))
             \<and> is_from_end (py_strip (split_on (CHR 0x0A) sql ! b))
             \<and> block = py_join [CHR 0x0A] (take (Suc b - a) (drop a (split_on (CHR 0x0A) sql)))))"
proof -
  let ?ls = "split_on (CHR 0x0A) sql"
  obtain T S E where sc: "scan_lines ?ls 0 [] None = (T, S, E)" using prod_cases3 by blast
  from assms sc have T: "T = truncs"
    by (auto simp: split_full_refresh_def Let_def split: option.splits)
  from scan_lines_truncs [OF sc] T
  have 1: "\<forall>t\<in>set truncs. \<exists>l\<in>set ?ls. t = py_strip l \<and> is_truncate t" by auto
  have 2: "\<exists>a b. a < b \<and> b < length ?ls
           \<and> contains ''INSERT ALL'' (py_strip (?ls ! a))
           \<and> is_from_end (py_strip (?ls ! b))
           \<and> block = py_join [CHR 0x0A] (take (Suc b - a) (drop a ?ls))"
    if "ins = Some block" for block
  proof -
    from assms sc that obtain a b where ab: "S = Some a" "E = Some b"
       and bl: "block = py_join [CHR 0x0A] (take (Suc b - a) (drop a ?ls))"
      by (auto simp: split_full_refresh_def Let_def split: option.splits)
    from scan_lines_block [of ?ls 0 "[]" None T a b] sc ab
    have "a < b \<and> b < length ?ls \<and> is_from_end (py_strip (?ls ! b))
            \<and> contains ''INSERT ALL'' (py_strip (?ls ! a))"
      by auto
    with bl show ?thesis by blast
  qed
  from 1 2 show ?thesis by blast
qed

lemma plain_Cons:
  "plain (x # xs) \<Longrightarrow> ((\<exists>sql. x = Exec sql) \<or> (\<exists>e. x = Emit e)) \<and> plain xs"
  by (auto simp: plain_def split: op.splits)

lemma run_plain:
  assumes "plain ops" "run_ops db ops st = (res, st')"
  shows "\<exists>ts k. io_trace st' = io_trace st @ ts \<and> map fst ts = take k (execs ops)
           \<and> (res = None \<longrightarrow> ts = map (\<lambda>s. (s, True)) (execs ops))"
  using assms
proof (induction ops arbitrary: st)
  case Nil
  then show ?case by (simp add: execs_def)
next
  case (Cons x xs)
  from plain_Cons [OF Cons.prems(1)] have px: "(\<exists>sql. x = Exec sql) \<or> (\<exists>e. x = Emit e)" and pxs: "plain xs"
    by auto
  from px show ?case
  proof
    assume "\<exists>e. x = Emit e"
    then obtain e where x: "x = Emit e" by blast
    with Cons.prems(2) have "run_ops db xs (yield e st) = (res, st')" by simp
    from Cons.IH [OF pxs this] x show ?thesis by (simp add: execs_def)
  next
    assume "\<exists>sql. x = Exec sql"
    then obtain sql where x: "x = Exec sql" by blast
    obtain r s1 where a: "attempt db sql st = (r, s1)" by fastforce
    note f = attempt_result(2) [OF a]
    show ?thesis
    proof (cases r)
      case (Inl e)
      with Cons.prems(2) x a have "res = Some e" "st' = s1" by auto
      with f Inl have "io_trace st' = io_trace st @ [(sql, False)]"
         "map fst [(sql, False)] = take 1 (execs (x # xs))" "res \<noteq> None"
        by (auto simp: execs_def x)
      then show ?thesis by blast
    next
      case (Inr n)
      with Cons.prems(2) x a have "run_ops db xs s1 = (res, st')" by simp
      from Cons.IH [OF pxs this] obtain ts k where
         t: "io_trace st' = io_trace s1 @ ts" "map fst ts = take k (execs xs)"
            "res = None \<longrightarrow> ts = map (\<lambda>s. (s, True)) (execs xs)" by blast
      from t f Inr have "io_trace st' = io_trace st @ ((sql, True) # ts)"
          "map fst ((sql, True) # ts) = take (Suc k) (execs (x # xs))"
          "res = None \<longrightarrow> (sql, True) # ts = map (\<lambda>s. (s, True)) (execs (x # xs))"
        by (auto simp: execs_def x)
      then show ?thesis
        by (intro exI [of _ "(sql, True) # ts"] exI [of _ "Suc k"]) simp
    qed
  qed
qed

lemma plain_truncates: "plain (concat (map (\<lambda>t. [Exec t, Emit e]) ts))"
  by (induction ts) (auto simp: plain_def)

lemma execs_truncates: "execs (concat (map (\<lambda>t. [Exec t, Emit e]) ts)) = ts"
  by (induction ts) (auto simp: execs_def)

lemma plain_refresh_statements: "plain (refresh_statements (truncs, ins))"
  using plain_truncates [of "ev ''INFO'' ''full_refresh'' ''truncate'' ''complete''" truncs]
  by (auto simp: refresh_statements_def plain_def split: option.splits)

lemma execs_refresh_statements:
  "execs (refresh_statements (truncs, ins)) = truncs @ (case ins of None \<Rightarrow> [] | Some block \<Rightarrow> [block])"
  using execs_truncates [of "ev ''INFO'' ''full_refresh'' ''truncate'' ''complete''" truncs]
  by (auto simp: refresh_statements_def execs_def split: option.splits)

lemma full_refresh_phase_unfold:
  "\<exists>rest. full_refresh_phase tm r True =
     Emit (ev ''INFO'' ''full_refresh'' ''full_refresh_mti'' ''starting'')
     # refresh_statements (split_full_refresh (full_refresh_mti tm r)) @ rest"
  by (auto simp: full_refresh_phase_def refresh_statements_def split: prod.splits)

lemma refresh_warning_last:
  assumes "run_ops db (refresh_statements (truncs, None)) st = (None, st')"
  shows "last (io_events st') = ev ''WARNING'' ''full_refresh'' ''insert_all'' ''warning''"
proof -
  let ?a = "concat (map (\<lambda>t. [Exec t, Emit (ev ''INFO'' ''full_refresh'' ''truncate'' ''complete'')]) truncs)"
  have r: "refresh_statements (truncs, None) = ?a @ [Emit (ev ''WARNING'' ''full_refresh'' ''insert_all'' ''warning'')]"
    by (simp add: refresh_statements_def)
  obtain x s1 where a: "run_ops db ?a st = (x, s1)" by fastforce
  with assms r show ?thesis
    by (cases x) (auto simp: run_ops_append)
qed

text \<open>
  C7 (amended): the compiler returns the full-refresh statement as a single text, and the
  single-blueprint deployment route segments that text itself by scanning its lines. Step 9
  of the route is the starting event followed by the statements for the segments found.
  Whatever the target system answers, the statements the route attempts there are, in
  order, an initial part of the truncate statements followed by the insert block, and all
  of them when none fails. Every truncate statement is a stripped line of the text that
  begins with \<open>TRUNCATE TABLE\<close> and ends with a semicolon; the insert block, if any, is the
  run of lines, joined by newlines, from a line containing \<open>INSERT ALL\<close> to a later line
  that begins with \<open>FROM\<close> and ends with a semicolon; when no block is found, no insert is
  run and the last event of a run without failure is the warning.
\<close>

theorem full_refresh_phase_runs_segments:
  assumes seg: "split_full_refresh (full_refresh_mti tm r) = (truncs, ins)"
      and run: "run_ops db (refresh_statements (truncs, ins)) st = (res, st')"
  shows "(\<exists>rest. full_refresh_phase tm r True =
            Emit (ev ''INFO'' ''full_refresh'' ''full_refresh_mti'' ''starting'')
            # refresh_statements (truncs, ins) @ rest)
    \<and> (\<exists>ts k. io_trace st' = io_trace st @ ts
           \<and> map fst ts = take k (truncs @ (case ins of None \<Rightarrow> [] | Some block \<Rightarrow> [block]))
           \<and> (res = None \<longrightarrow>
                ts = map (\<lambda>s. (s, True)) (truncs @ (case ins of None \<Rightarrow> [] | Some block \<Rightarrow> [block]))))
    \<and> (ins = None \<and> res = None \<longrightarrow>
          last (io_events st') = ev ''WARNING'' ''full_refresh'' ''insert_all'' ''warning'')
    \<and> (\<forall>t\<in>set truncs. \<exists>l\<in>set (split_on (CHR 0x0A) (full_refresh_mti tm r)).
           t = py_strip l \<and> is_truncate t)
    \<and> (\<forall>block. ins = Some block \<longrightarrow>
          (\<exists>a b. a < b \<and> b < length (split_on (CHR 0x0A) (full_refresh_mti tm r))
             \<and> contains ''INSERT ALL'' (py_strip (split_on (CHR 0x0A) (full_refresh_mti tm r) ! a))
             \<and> is_from_end (py_strip (split_on (CHR 0x0A) (full_refresh_mti tm r) ! b))
             \<and> block = py_join [CHR 0x0A]
                         (take (Suc b - a) (drop a (split_on (CHR 0x0A) (full_refresh_mti tm r))))))"
proof -
  from full_refresh_phase_unfold [of tm r] seg
  have 1: "\<exists>rest. full_refresh_phase tm r True =
            Emit (ev ''INFO'' ''full_refresh'' ''full_refresh_mti'' ''starting'')
            # refresh_statements (truncs, ins) @ rest" by simp
  from run_plain [OF plain_refresh_statements run]
  have 2: "\<exists>ts k. io_trace st' = io_trace st @ ts
           \<and> map fst ts = take k (truncs @ (case ins of None \<Rightarrow> [] | Some block \<Rightarrow> [block]))
           \<and> (res = None \<longrightarrow>
                ts = map (\<lambda>s. (s, True)) (truncs @ (case ins of None \<Rightarrow> [] | Some block \<Rightarrow> [block])))"
    by (simp only: execs_refresh_statements)
  have 3: "ins = None \<and> res = None \<longrightarrow>
          last (io_events st') = ev ''WARNING'' ''full_refresh'' ''insert_all'' ''warning''"
    using run refresh_warning_last by blast
  from 1 2 3 split_full_refresh_scan [OF seg] show ?thesis by blast
qed

text \<open>
  C7 (as stated) fails: what the compiler hands over is one text, also when the template
  engine is unavailable or the template does not render and \<open>render\<close> returns its
  fallback comment. The route scans that text like any other: it finds no truncate
  statement and no insert block, so step 9 runs nothing and yields the warning.
\<close>

theorem full_refresh_fallback_counterexample:
  "full_refresh_mti no_templates example_renderer = ''-- Template rendering failed: full_refresh_mti.sql''
   \<and> split_full_refresh (full_refresh_mti no_templates example_renderer) = ([], None)
   \<and> refresh_statements (split_full_refresh (full_refresh_mti no_templates example_renderer))
       = [Emit (ev ''WARNING'' ''full_refresh'' ''insert_all'' ''warning'')]"
  by (simp add: full_refresh_mti_def render_def no_templates_def
      split_full_refresh_def is_truncate_def is_from_end_def starts_with_def ends_with_def
      py_strip_def is_space_def refresh_statements_def)

theorem full_refresh_phase_runs_segments_witness:
  "split_full_refresh (full_refresh_mti refresh_templates example_renderer)
     = ([''TRUNCATE TABLE DB.S.NODE_A;'', ''TRUNCATE TABLE DB.S.ATTR_A;''],
        Some (''INSERT ALL'' @ [CHR 0x0A] @ ''  INTO DB.S.NODE_A VALUES (K)'' @ [CHR 0x0A]
                @ ''SELECT K'' @ [CHR 0x0A] @ ''FROM SRC;''))
   \<and> (\<exists>st'. run_ops all_ok (refresh_statements (split_full_refresh (full_refresh_mti refresh_templates example_renderer))) empty_state = (None, st')
        \<and> io_trace st' = [(''TRUNCATE TABLE DB.S.NODE_A;'', True), (''TRUNCATE TABLE DB.S.ATTR_A;'', True),
             (''INSERT ALL'' @ [CHR 0x0A] @ ''  INTO DB.S.NODE_A VALUES (K)'' @ [CHR 0x0A]
                @ ''SELECT K'' @ [CHR 0x0A] @ ''FROM SRC;'', True)])"
proof -
  let ?block = "''INSERT ALL'' @ [CHR 0x0A] @ ''  INTO DB.S.NODE_A VALUES (K)'' @ [CHR 0x0A]
                @ ''SELECT K'' @ [CHR 0x0A] @ ''FROM SRC;''"
  let ?truncs = "[''TRUNCATE TABLE DB.S.NODE_A;'', ''TRUNCATE TABLE DB.S.ATTR_A;'']"
  have m: "full_refresh_mti refresh_templates example_renderer = example_refresh_sql"
    by (simp add: full_refresh_mti_def render_def refresh_templates_def)
  have e: "split_full_refresh (full_refresh_mti refresh_templates example_renderer) = (?truncs, Some ?block)"
    unfolding m
    by (simp add: example_refresh_sql_def split_full_refresh_def is_truncate_def is_from_end_def
        starts_with_def ends_with_def py_strip_def is_space_def)
  obtain res st' where run: "run_ops all_ok (refresh_statements (?truncs, Some ?block)) empty_state = (res, st')"
    by fastforce
  have n: "res = None"
    using run by (simp add: refresh_statements_def attempt_def all_ok_def)
  from full_refresh_phase_runs_segments [OF e run] n have "io_trace st' = io_trace empty_state @ map (\<lambda>s. (s, True)) (?truncs @ [?block])"
    by auto
  then have "io_trace st' = [(''TRUNCATE TABLE DB.S.NODE_A;'', True), (''TRUNCATE TABLE DB.S.ATTR_A;'', True), (?block, True)]"
    by (simp add: empty_state_def)
  with run n e show ?thesis by simp
qed

subsection \<open>Deployed-object tracking of a single blueprint\<close>

lemma flat_tracks_append [simp]: "flat_tracks (xs @ ys) = (flat_tracks xs \<and> flat_tracks ys)"
  by (simp add: flat_tracks_def)

lemma flat_tracks_Cons [simp]:
  "flat_tracks (x # xs) = ((case x of Track obj \<Rightarrow> True | _ \<Rightarrow> op_tracks x = []) \<and> flat_tracks xs)"
  by (simp add: flat_tracks_def)

lemma flat_tracks_Nil [simp]: "flat_tracks []"
  by (simp add: flat_tracks_def)

lemma flat_map_Exec [simp]: "flat_tracks (map Exec sqls)"
  by (induction sqls) auto

lemma flat_track_loaded [simp]: "flat_tracks (track_loaded d s ns)"
  by (induction ns) (auto split: sum.splits)

lemma flat_track_edges [simp]: "flat_tracks (track_edges d s p ns)"
  by (induction ns) (auto split: sum.splits)

lemma tracks_count_loaded [simp]: "concat (map op_tracks (count_loaded r ns)) = []"
  by (induction ns) (auto split: sum.splits)

lemma flat_truncates [simp]:
  "flat_tracks (concat (map (\<lambda>t. [Exec t, Emit (e t)]) ts))"
  by (induction ts) auto

lemma flat_deploy_body: "flat_tracks (deploy_body tm r bid rf)"
  by (auto simp: deploy_body_def validation_phase_def view_phase_def stream_phase_def
      nodes_phase_def edges_phase_def attributes_phase_def mti_phase_def task_phase_def
      full_refresh_phase_def with_binding_object_def with_primary_node_def data_summary_def
      split: option.splits sum.splits prod.splits)

lemma status_update_exactly_once:
  assumes res: "res = deploy_single_blueprint_streaming cs tm db status_ok tr bid ro rf dbn"
  shows "\<exists>u. dr_status_log res = [(u, status_ok u)] \<and> su_blueprint_id u = bid
         \<and> su_error u = map_option str_of_error (dr_raised res)
         \<and> su_deployed u = (if dr_deployed res = [] then None else Some (dr_deployed res))"
    and "\<forall>r. SQLRenderer cs bid ro dbn = Inr r \<longrightarrow>
            (dr_raised res = None \<longrightarrow> dr_deployed res = tracks (deploy_body tm r bid rf))
          \<and> (\<exists>k. dr_deployed res = take k (tracks (deploy_body tm r bid rf)))"
    and "\<forall>e. SQLRenderer cs bid ro dbn = Inl e \<longrightarrow> dr_raised res = Some e \<and> dr_deployed res = []"
    and "\<forall>ok'. dr_events (deploy_single_blueprint_streaming cs tm db ok' tr bid ro rf dbn) = dr_events res
          \<and> dr_raised (deploy_single_blueprint_streaming cs tm db ok' tr bid ro rf dbn) = dr_raised res
          \<and> dr_trace (deploy_single_blueprint_streaming cs tm db ok' tr bid ro rf dbn) = dr_trace res
          \<and> dr_deployed (deploy_single_blueprint_streaming cs tm db ok' tr bid ro rf dbn) = dr_deployed res"
    and "last (dr_events res) = (if dr_raised res = None then ev ''SUCCESS'' ''complete'' bid ''complete''
                                  else ev ''ERROR'' ''deployment'' bid ''failed'')"
proof -
  let ?st0 = "\<lparr> io_trace = tr, io_events = [ev ''INFO'' ''initialization'' bid ''starting''],
                   io_deployed = [], io_steps = [] \<rparr>"
  let ?run = "(case SQLRenderer cs bid ro dbn of
                 Inl e \<Rightarrow> (Some e, ?st0)
               | Inr r \<Rightarrow> run_ops db (deploy_body tm r bid rf) ?st0)"
  obtain x st where run: "?run = (x, st)" by fastforce
  show "\<exists>u. dr_status_log res = [(u, status_ok u)] \<and> su_blueprint_id u = bid
         \<and> su_error u = map_option str_of_error (dr_raised res)
         \<and> su_deployed u = (if dr_deployed res = [] then None else Some (dr_deployed res))"
    unfolding res deploy_single_blueprint_streaming_def Let_def run
    by (cases x) (auto simp: update_blueprint_deployed_status_def Let_def)
  show "\<forall>ok'. dr_events (deploy_single_blueprint_streaming cs tm db ok' tr bid ro rf dbn) = dr_events res
          \<and> dr_raised (deploy_single_blueprint_streaming cs tm db ok' tr bid ro rf dbn) = dr_raised res
          \<and> dr_trace (deploy_single_blueprint_streaming cs tm db ok' tr bid ro rf dbn) = dr_trace res
          \<and> dr_deployed (deploy_single_blueprint_streaming cs tm db ok' tr bid ro rf dbn) = dr_deployed res"
    unfolding res deploy_single_blueprint_streaming_def Let_def run
    by (cases x) (auto simp: update_blueprint_deployed_status_def Let_def)
  show "last (dr_events res) = (if dr_raised res = None then ev ''SUCCESS'' ''complete'' bid ''complete''
                                  else ev ''ERROR'' ''deployment'' bid ''failed'')"
    unfolding res deploy_single_blueprint_streaming_def Let_def run
    by (cases x) (auto simp: update_blueprint_deployed_status_def Let_def)
  show "\<forall>e. SQLRenderer cs bid ro dbn = Inl e \<longrightarrow> dr_raised res = Some e \<and> dr_deployed res = []"
    unfolding res deploy_single_blueprint_streaming_def Let_def
    by (auto simp: update_blueprint_deployed_status_def Let_def)
  show "\<forall>r. SQLRenderer cs bid ro dbn = Inr r \<longrightarrow>
            (dr_raised res = None \<longrightarrow> dr_deployed res = tracks (deploy_body tm r bid rf))
          \<and> (\<exists>k. dr_deployed res = take k (tracks (deploy_body tm r bid rf)))"
  proof (intro allI impI)
    fix r assume r: "SQLRenderer cs bid ro dbn = Inr r"
    with run have "run_ops db (deploy_body tm r bid rf) ?st0 = (x, st)" by simp
    from run_ops_tracks [OF flat_deploy_body this]
    have t: "x = None \<longrightarrow> io_deployed st = tracks (deploy_body tm r bid rf)"
         "\<exists>k. io_deployed st = take k (tracks (deploy_body tm r bid rf))" by auto
    have "dr_deployed res = io_deployed st" "dr_raised res = x"
      unfolding res deploy_single_blueprint_streaming_def Let_def run
      by (cases x; auto simp: update_blueprint_deployed_status_def Let_def)+
    with t show "(dr_raised res = None \<longrightarrow> dr_deployed res = tracks (deploy_body tm r bid rf))
          \<and> (\<exists>k. dr_deployed res = take k (tracks (deploy_body tm r bid rf)))" by simp
  qed
qed











subsection \<open>Task creation\<close>















subsection \<open>The audit record of a staged run\<close>

lemma send_event_fields [simp]:
  "rs_successful (send_event e rs) = rs_successful rs"
  "rs_failed (send_event e rs) = rs_failed rs"
  "rs_trace (send_event e rs) = rs_trace rs"
  "rs_events (send_event e rs) = rs_events rs @ [e]"
  by (simp_all add: send_event_def)







end
